theory Spec2Isabelle
  imports Complex_Main
begin

section \<open>Values caught by the editor's catch blocks\<close>

text \<open>
  \<^verbatim>\<open>catch(err)\<close> in editor.ts receives any thrown JavaScript value. The two
  catch blocks only ask whether it is an \<^verbatim>\<open>Error\<close> instance and what its
  message is, so a thrown value is either an Error with its message or some other value
  (a string, a rejected promise's reason, ...).
\<close>

datatype thrown = Error string | NonError string

definition instanceof_Error :: "thrown \<Rightarrow> bool" where
  "instanceof_Error err = (case err of Error _ \<Rightarrow> True | NonError _ \<Rightarrow> False)"

definition message :: "thrown \<Rightarrow> string" where
  "message err = (case err of Error m \<Rightarrow> m | NonError _ \<Rightarrow> [])"

text \<open>The two sentinel messages the catch blocks compare against.\<close>

definition WORKER_CANCELLED :: string where
  "WORKER_CANCELLED = ''WORKER CANCELLED''"

definition TRAJECTORY_FINDER_CANCELLED :: string where
  "TRAJECTORY_FINDER_CANCELLED = ''TRAJECTORY FINDER CANCELLED''"

section \<open>Data handled by the editor\<close>

text \<open>
  An orbiting body as the editor reads it: \<^verbatim>\<open>body.id\<close>,
  \<^verbatim>\<open>body.attractor.id\<close>, \<^verbatim>\<open>body.soi\<close> and \<^verbatim>\<open>body.radius\<close>. Of its
  orbital elements only the semi-major axis is kept, which the editor never reads: it
  orders the bodies of one attractor by their distance to it.
\<close>

record OrbitingBody =
  bodyId :: nat
  attractorId :: nat
  soi :: real
  radius :: real
  semiMajorAxis :: real

text \<open>
  A flyby sequence as the editor reads it: \<^verbatim>\<open>sequence.bodies\<close> and
  \<^verbatim>\<open>sequence.length\<close>, the number of its bodies.
\<close>

record FlybySequence =
  ids :: "nat list"
  bodies :: "OrbitingBody list"

definition seq_length :: "FlybySequence \<Rightarrow> nat" where
  "seq_length s = length (bodies s)"

text \<open>The object literal \<^verbatim>\<open>params\<close> built by \<^verbatim>\<open>runSequenceGeneration\<close>.\<close>

record SearchParams =
  departureId :: nat
  destinationId :: nat
  maxBackSpacing :: int
  maxSwingBys :: int
  maxResonant :: int
  maxBackLegs :: int

text \<open>
  \<^verbatim>\<open>maxDurationSeconds\<close> starts as \<^verbatim>\<open>Infinity\<close> and becomes a finite number
  of seconds only when the duration limit is in use.
\<close>

datatype duration = Infinity | Seconds real

text \<open>The object literal \<^verbatim>\<open>userSettings\<close> built by \<^verbatim>\<open>findTrajectory\<close>;
  the two altitude fields are named after the locals that fill them. Numbers are
  double-precision values, kept as the real numbers they stand for.\<close>

record TrajectoryUserSettings =
  startDate :: real
  endDate :: real
  depAltitudeVal :: real
  destAltitudeVal :: real
  noInsertion :: bool
  maxDurationSeconds :: duration

section \<open>Form controls\<close>

text \<open>
  An \<^verbatim>\<open>IntegerInput\<close>. Its code (integer-input.js) is missing and the spec does not
  describe it: what its methods answer is a parameter of the model. The control holds its integer value and the range last given to
  \<^verbatim>\<open>setMinMax\<close>; \<open>input_invalid\<close> is what \<^verbatim>\<open>assertValidity\<close> raises on
  the current content (\<open>None\<close> when it returns), and \<open>input_after_range lo hi v\<close> is
  the value \<^verbatim>\<open>setMinMax(lo, hi)\<close> leaves when the value was \<open>v\<close>: the model
  does not say whether the value is kept, clamped or changed otherwise.
\<close>

record IntegerInput =
  input_value :: int
  input_min :: int
  input_max :: int
  input_invalid :: "thrown option"
  input_after_range :: "int \<Rightarrow> int \<Rightarrow> int \<Rightarrow> int"

text \<open>
  \<^verbatim>\<open>IntegerInput.setMinMax\<close>: the range is stored, and the value becomes what the
  parameter \<open>input_after_range\<close> says.
\<close>

definition setMinMax :: "IntegerInput \<Rightarrow> int \<Rightarrow> int \<Rightarrow> IntegerInput" where
  "setMinMax inp lo hi =
     inp\<lparr>input_min := lo, input_max := hi,
         input_value := input_after_range inp lo hi (input_value inp)\<rparr>"

text \<open>
  \<^verbatim>\<open>IntegerInput.validate\<close>: whether the current content is valid, from the
  parameter \<open>input_invalid\<close>.
\<close>

definition validate :: "IntegerInput \<Rightarrow> bool" where
  "validate inp = (input_invalid inp = None)"

text \<open>
  \<^verbatim>\<open>IntegerInput.assertValidity\<close>: \<open>None\<close> when it returns, the thrown value
  otherwise, from the parameter \<open>input_invalid\<close>.
\<close>

definition assertValidity :: "IntegerInput \<Rightarrow> thrown option" where
  "assertValidity inp = input_invalid inp"

text \<open>
  A \<^verbatim>\<open>TimeSelector\<close>: the answer of \<^verbatim>\<open>validate()\<close> and the value of
  \<^verbatim>\<open>dateSeconds\<close>.
\<close>

record TimeSelector =
  time_valid :: bool
  dateSeconds :: real

text \<open>\<^verbatim>\<open>config.time\<close>: its \<^verbatim>\<open>type\<close> and \<^verbatim>\<open>hoursPerDay\<close>.\<close>

record TimeConfig =
  time_type :: string
  hoursPerDay :: real

section \<open>The editor's state\<close>

text \<open>
  Every control and variable that \<^verbatim>\<open>generateSequences\<close>, \<^verbatim>\<open>findTrajectory\<close>
  and the two button handlers read or write. A control that is enabled, disabled, shown
  or hidden is a flag; \<open>console_errors\<close> lists the arguments of
  \<^verbatim>\<open>console.error\<close> in call order (\<^verbatim>\<open>console.log\<close> and
  \<^verbatim>\<open>console.debug\<close> output is not recorded); \<open>generator_calls\<close> and
  \<open>solver_calls\<close> list the arguments of every call of
  \<^verbatim>\<open>generator.generateFlybySequences\<close> and of
  \<^verbatim>\<open>solver.searchOptimalTrajectory\<close>. The arithmetic of the code is in double
  precision: each operation gives the double nearest to the exact result. That rounding
  is the parameter \<open>to_double\<close>, which the model leaves open (results too large for
  a double are outside the model).
\<close>

record Editor =
  systemSelector_enabled :: bool
  console_errors :: "thrown list"
  to_double :: "real \<Rightarrow> real"
  \<comment> \<open>sequence generation panel\<close>
  sequenceSelector_enabled :: bool
  sequenceSelector_items :: "FlybySequence list"
  sequenceSelector_index :: nat
  originSelector_body :: OrbitingBody
  destSelector_body :: OrbitingBody
  maxSwingBysInput :: IntegerInput
  maxResonantInput :: IntegerInput
  maxBackLegsInput :: IntegerInput
  maxBackSpacingInput :: IntegerInput
  progressMsg_enabled :: bool
  sequence_paramsErr :: "thrown option"
  seqGenBtn_enabled :: bool
  generator_calls :: "SearchParams list"
  \<comment> \<open>trajectory search panel\<close>
  config_time :: TimeConfig
  timeRangeStart :: TimeSelector
  timeRangeEnd :: TimeSelector
  depAltitude :: IntegerInput
  destAltitude :: IntegerInput
  maxDuration :: IntegerInput
  useMaxDuration_checked :: bool
  noInsertionBox_checked :: bool
  customSequence_value :: string
  deltaVPlot_visible :: bool
  search_paramsErr :: "thrown option"
  trajectory_drawn :: bool
  detailsSelector_enabled :: bool
  stepSlider_enabled :: bool
  showTrajDetailsBtn_enabled :: bool
  downloadTrajDataBtn_enabled :: bool
  trajectoryCounter :: nat
  searchStartBtn_enabled :: bool
  solver_calls :: "(FlybySequence \<times> TrajectoryUserSettings) list"

text \<open>
  The collaborators whose code the editor only calls: the awaited
  \<^verbatim>\<open>generator.generateFlybySequences(params, onProgress)\<close> either resolves with
  sequences or rejects with a thrown value; \<^verbatim>\<open>FlybySequence.fromString\<close> returns
  a sequence or throws; the awaited \<^verbatim>\<open>solver.searchOptimalTrajectory\<close> resolves
  or rejects. An \<^verbatim>\<open>await\<close> is modelled by its outcome: what other handlers do
  while the call is pending is outside the model.
\<close>

record Collaborators =
  generateFlybySequences :: "SearchParams \<Rightarrow> thrown + FlybySequence list"
  fromString :: "string \<Rightarrow> thrown + FlybySequence"
  searchOptimalTrajectory :: "FlybySequence \<Rightarrow> TrajectoryUserSettings \<Rightarrow> thrown option"

section \<open>Sequence generation\<close>

text \<open>\<^verbatim>\<open>assertSequenceInputs\<close>: \<open>None\<close> when it returns, the thrown value otherwise.\<close>

definition assertSequenceInputs :: "Editor \<Rightarrow> thrown option" where
  "assertSequenceInputs ed =
     (case assertValidity (maxBackSpacingInput ed) of
        Some e \<Rightarrow> Some e
      | None \<Rightarrow>
     (case assertValidity (maxSwingBysInput ed) of
        Some e \<Rightarrow> Some e
      | None \<Rightarrow>
     (case assertValidity (maxResonantInput ed) of
        Some e \<Rightarrow> Some e
      | None \<Rightarrow>
     (case assertValidity (maxBackLegsInput ed) of
        Some e \<Rightarrow> Some e
      | None \<Rightarrow>
         (let depBody = originSelector_body ed; destBody = destSelector_body ed
          in if attractorId depBody \<noteq> attractorId destBody
             then Some (Error ''Origin and destination bodies must orbit the same body.'')
             else if bodyId depBody = bodyId destBody
             then Some (Error ''Same origin and destination bodies.'')
             else None)))))"

text \<open>The \<^verbatim>\<open>params\<close> literal of \<^verbatim>\<open>runSequenceGeneration\<close>.\<close>

definition sequence_params :: "Editor \<Rightarrow> SearchParams" where
  "sequence_params ed =
     \<lparr>departureId = bodyId (originSelector_body ed),
      destinationId = bodyId (destSelector_body ed),
      maxBackSpacing = input_value (maxBackSpacingInput ed),
      maxSwingBys = input_value (maxSwingBysInput ed),
      maxResonant = input_value (maxResonantInput ed),
      maxBackLegs = input_value (maxBackLegsInput ed)\<rparr>"

text \<open>
  \<^verbatim>\<open>runSequenceGeneration\<close>: the state it leaves and the value it throws, if any.
  The progress callback only rewrites the progress message's text and is left out.
\<close>

definition runSequenceGeneration :: "Collaborators \<Rightarrow> Editor \<Rightarrow> Editor \<times> thrown option" where
  "runSequenceGeneration c ed =
     (let params = sequence_params ed;
          ed1 = ed\<lparr>generator_calls := generator_calls ed @ [params]\<rparr>
      in case generateFlybySequences c params of
           Inl err \<Rightarrow> (ed1, Some err)
         | Inr sequences \<Rightarrow> (ed1\<lparr>sequenceSelector_items := sequences\<rparr>, None))"

text \<open>The try block of \<^verbatim>\<open>generateSequences\<close>.\<close>

definition generateSequences_try :: "Collaborators \<Rightarrow> Editor \<Rightarrow> Editor \<times> thrown option" where
  "generateSequences_try c ed =
     (let ed1 = ed\<lparr>sequenceSelector_enabled := False\<rparr>;
          ed2 = ed1\<lparr>sequenceSelector_items := []\<rparr>;
          ed3 = ed2\<lparr>progressMsg_enabled := True\<rparr>
      in case assertSequenceInputs ed3 of
           Some err \<Rightarrow> (ed3, Some err)
         | None \<Rightarrow>
            (case runSequenceGeneration c ed3 of
               (ed4, Some err) \<Rightarrow> (ed4, Some err)
             | (ed4, None) \<Rightarrow> (ed4\<lparr>sequenceSelector_enabled := True\<rparr>, None)))"

text \<open>The catch block of \<^verbatim>\<open>generateSequences\<close>.\<close>

definition generateSequences_catch :: "thrown \<Rightarrow> Editor \<Rightarrow> Editor" where
  "generateSequences_catch err ed =
     (let ed1 = (if instanceof_Error err \<and> message err \<noteq> WORKER_CANCELLED
                 then ed\<lparr>sequence_paramsErr := Some err\<rparr> else ed)
      in ed1\<lparr>console_errors := console_errors ed1 @ [err]\<rparr>)"

text \<open>The two statements of \<^verbatim>\<open>generateSequences\<close> before its try block.\<close>

definition generateSequences_enter :: "Editor \<Rightarrow> Editor" where
  "generateSequences_enter ed =
     (let ed1 = ed\<lparr>sequence_paramsErr := None\<rparr>
      in ed1\<lparr>systemSelector_enabled := False\<rparr>)"

definition generateSequences :: "Collaborators \<Rightarrow> Editor \<Rightarrow> Editor" where
  "generateSequences c ed =
     (let ed2 = generateSequences_enter ed;
          ed4 = (case generateSequences_try c ed2 of
                   (ed3, None) \<Rightarrow> ed3
                 | (ed3, Some err) \<Rightarrow> generateSequences_catch err ed3);
          ed5 = ed4\<lparr>progressMsg_enabled := False\<rparr>
      in ed5\<lparr>systemSelector_enabled := True\<rparr>)"

text \<open>What the try block of a call of \<^verbatim>\<open>generateSequences\<close> throws
  (\<open>None\<close>: it runs to its end).\<close>

definition generateSequences_thrown :: "Collaborators \<Rightarrow> Editor \<Rightarrow> thrown option" where
  "generateSequences_thrown c ed = snd (generateSequences_try c (generateSequences_enter ed))"

text \<open>The state in which the try block of \<^verbatim>\<open>generateSequences\<close> reaches
  \<^verbatim>\<open>assertSequenceInputs()\<close>.\<close>

definition try_entry :: "Editor \<Rightarrow> Editor" where
  "try_entry ed =
     generateSequences_enter ed
       \<lparr>sequenceSelector_enabled := False, sequenceSelector_items := [], progressMsg_enabled := True\<rparr>"

text \<open>The click handler of \<^verbatim>\<open>seqGenBtn\<close>.\<close>

definition seqGenBtn_click :: "Collaborators \<Rightarrow> Editor \<Rightarrow> Editor" where
  "seqGenBtn_click c ed =
     (let ed1 = ed\<lparr>seqGenBtn_enabled := False\<rparr>;
          ed2 = generateSequences c ed1
      in ed2\<lparr>seqGenBtn_enabled := True\<rparr>)"

section \<open>Trajectory search\<close>

text \<open>Reading a property of \<^verbatim>\<open>undefined\<close> throws a TypeError, an Error instance
  whose message depends on the engine.\<close>

definition TypeError_undefined :: thrown where
  "TypeError_undefined = Error ''Cannot read properties of undefined''"

text \<open>\<^verbatim>\<open>sequenceSelector.sequence\<close>: the selected item, \<^verbatim>\<open>undefined\<close> when there
  is none.\<close>

definition sequenceSelector_sequence :: "Editor \<Rightarrow> FlybySequence option" where
  "sequenceSelector_sequence ed =
     (if sequenceSelector_index ed < length (sequenceSelector_items ed)
      then Some (sequenceSelector_items ed ! sequenceSelector_index ed) else None)"

text \<open>\<^verbatim>\<open>sequence.bodies[i]\<close>: \<^verbatim>\<open>undefined\<close> outside the array.\<close>

definition bodies_at :: "FlybySequence \<Rightarrow> int \<Rightarrow> OrbitingBody option" where
  "bodies_at s i =
     (if 0 \<le> i \<and> i < int (length (bodies s)) then Some (bodies s ! nat i) else None)"

text \<open>\<^verbatim>\<open>updateAltitudeRange\<close>, with the rounding of its subtraction and of its
  division; \<^verbatim>\<open>Math.floor\<close> is exact.\<close>

definition updateAltitudeRange ::
  "(real \<Rightarrow> real) \<Rightarrow> IntegerInput \<Rightarrow> OrbitingBody \<Rightarrow> IntegerInput" where
  "updateAltitudeRange rounded inp body =
     (let mx = \<lfloor>rounded (rounded (soi body - radius body) / 1000)\<rfloor>
      in setMinMax inp 0 mx)"

definition resetFoundTrajectory :: "Editor \<Rightarrow> Editor" where
  "resetFoundTrajectory ed =
     ed\<lparr>deltaVPlot_visible := True,
        detailsSelector_enabled := False,
        stepSlider_enabled := False,
        showTrajDetailsBtn_enabled := False,
        downloadTrajDataBtn_enabled := False,
        trajectory_drawn := False\<rparr>"

definition displayFoundTrajectory :: "FlybySequence \<Rightarrow> Editor \<Rightarrow> Editor" where
  "displayFoundTrajectory sequence ed =
     ed\<lparr>trajectory_drawn := True,
        detailsSelector_enabled := True,
        stepSlider_enabled := True,
        trajectoryCounter := trajectoryCounter ed + 1,
        showTrajDetailsBtn_enabled := True,
        downloadTrajDataBtn_enabled := True\<rparr>"

text \<open>The sequence the try block of \<^verbatim>\<open>findTrajectory\<close> starts from: the parsed
  custom sequence when the text field is not empty, the selector's otherwise.\<close>

definition findTrajectory_sequence :: "Collaborators \<Rightarrow> Editor \<Rightarrow> thrown + FlybySequence option" where
  "findTrajectory_sequence c ed =
     (if customSequence_value ed \<noteq> []
      then (case fromString c (customSequence_value ed) of
              Inl err \<Rightarrow> Inl err
            | Inr sequence \<Rightarrow> Inr (Some sequence))
      else Inr (sequenceSelector_sequence ed))"

text \<open>\<^verbatim>\<open>maxDurationSeconds\<close> as \<^verbatim>\<open>findTrajectory\<close> computes it.\<close>

definition max_duration_seconds :: "Editor \<Rightarrow> duration" where
  "max_duration_seconds ed =
     (if useMaxDuration_checked ed
      then (if time_type (config_time ed) = ''base''
            then (let secondsPerDay = to_double ed (hoursPerDay (config_time ed) * 3600)
                  in Seconds (to_double ed (of_int (input_value (maxDuration ed)) * secondsPerDay)))
            else Seconds (to_double ed (to_double ed (of_int (input_value (maxDuration ed)) * 24) * 3600)))
      else Infinity)"

text \<open>The \<^verbatim>\<open>userSettings\<close> literal of \<^verbatim>\<open>findTrajectory\<close>.\<close>

definition user_settings :: "Editor \<Rightarrow> TrajectoryUserSettings" where
  "user_settings ed =
     \<lparr>startDate = dateSeconds (timeRangeStart ed),
      endDate = dateSeconds (timeRangeEnd ed),
      depAltitudeVal = to_double ed (of_int (input_value (depAltitude ed)) * 1000),
      destAltitudeVal = to_double ed (of_int (input_value (destAltitude ed)) * 1000),
      noInsertion = noInsertionBox_checked ed,
      maxDurationSeconds = max_duration_seconds ed\<rparr>"

text \<open>The try block of \<^verbatim>\<open>findTrajectory\<close>: the state it leaves and the value it
  throws, if any.\<close>

definition findTrajectory_try :: "Collaborators \<Rightarrow> Editor \<Rightarrow> Editor \<times> thrown option" where
  "findTrajectory_try c ed =
     (case findTrajectory_sequence c ed of
        Inl err \<Rightarrow> (ed, Some err)
      | Inr None \<Rightarrow> (ed, Some TypeError_undefined)
      | Inr (Some sequence) \<Rightarrow>
         (case bodies_at sequence 0 of
            None \<Rightarrow> (ed, Some TypeError_undefined)
          | Some first_body \<Rightarrow>
             (let ed1 = ed\<lparr>depAltitude := updateAltitudeRange (to_double ed) (depAltitude ed) first_body\<rparr>;
                  slen = seq_length sequence
              in case bodies_at sequence (int slen - 1) of
                   None \<Rightarrow> (ed1, Some TypeError_undefined)
                 | Some last_body \<Rightarrow>
                    (let ed2 = ed1\<lparr>destAltitude :=
                                 updateAltitudeRange (to_double ed1) (destAltitude ed1) last_body\<rparr>
                     in if \<not> time_valid (timeRangeStart ed2) \<or> \<not> time_valid (timeRangeEnd ed2)
                        then (ed2, Some (Error ''Invalid departure and arrival date values.''))
                        else if dateSeconds (timeRangeEnd ed2) < dateSeconds (timeRangeStart ed2)
                        then (ed2, Some (Error ''Departure date range end must be greater than the start date.''))
                        else if \<not> validate (maxDuration ed2)
                        then (ed2, Some (Error ''Invalid duration limit.''))
                        else
                          (let ed3 = resetFoundTrajectory ed2;
                               userSettings = user_settings ed3;
                               ed4 = ed3\<lparr>solver_calls := solver_calls ed3 @ [(sequence, userSettings)]\<rparr>
                           in case searchOptimalTrajectory c sequence userSettings of
                                Some err \<Rightarrow> (ed4, Some err)
                              | None \<Rightarrow> (displayFoundTrajectory sequence ed4, None))))))"

text \<open>The catch block of \<^verbatim>\<open>findTrajectory\<close>.\<close>

definition findTrajectory_catch :: "thrown \<Rightarrow> Editor \<Rightarrow> Editor" where
  "findTrajectory_catch err ed =
     (let ed1 = (if instanceof_Error err \<and> message err \<noteq> TRAJECTORY_FINDER_CANCELLED
                 then ed\<lparr>search_paramsErr := Some err\<rparr> else ed)
      in ed1\<lparr>console_errors := console_errors ed1 @ [err]\<rparr>)"

text \<open>The two statements of \<^verbatim>\<open>findTrajectory\<close> before its try block.\<close>

definition findTrajectory_enter :: "Editor \<Rightarrow> Editor" where
  "findTrajectory_enter ed =
     (let ed1 = ed\<lparr>search_paramsErr := None\<rparr>
      in ed1\<lparr>systemSelector_enabled := False\<rparr>)"

definition findTrajectory :: "Collaborators \<Rightarrow> Editor \<Rightarrow> Editor" where
  "findTrajectory c ed =
     (let ed2 = findTrajectory_enter ed;
          ed4 = (case findTrajectory_try c ed2 of
                   (ed3, None) \<Rightarrow> ed3
                 | (ed3, Some err) \<Rightarrow> findTrajectory_catch err ed3)
      in ed4\<lparr>systemSelector_enabled := True\<rparr>)"

text \<open>What the try block of a call of \<^verbatim>\<open>findTrajectory\<close> throws
  (\<open>None\<close>: it runs to its end).\<close>

definition findTrajectory_thrown :: "Collaborators \<Rightarrow> Editor \<Rightarrow> thrown option" where
  "findTrajectory_thrown c ed = snd (findTrajectory_try c (findTrajectory_enter ed))"

text \<open>
  Names for the stages of the try block of \<^verbatim>\<open>findTrajectory\<close>, used to state
  its properties: the error of the date range check, the state after the two calls of
  \<^verbatim>\<open>updateAltitudeRange\<close>, the outcome of the three validation checks that
  follow, and the state in which the solver is called.
\<close>

definition date_error :: thrown where
  "date_error = Error ''Departure date range end must be greater than the start date.''"

definition altitude_ranges_updated :: "FlybySequence \<Rightarrow> Editor \<Rightarrow> Editor" where
  "altitude_ranges_updated s ed =
     ed\<lparr>depAltitude := updateAltitudeRange (to_double ed) (depAltitude ed) (hd (bodies s)),
        destAltitude := updateAltitudeRange (to_double ed) (destAltitude ed) (last (bodies s))\<rparr>"

definition validation_error :: "Editor \<Rightarrow> thrown option" where
  "validation_error ed =
     (if \<not> time_valid (timeRangeStart ed) \<or> \<not> time_valid (timeRangeEnd ed)
      then Some (Error ''Invalid departure and arrival date values.'')
      else if dateSeconds (timeRangeEnd ed) < dateSeconds (timeRangeStart ed)
      then Some date_error
      else if \<not> validate (maxDuration ed)
      then Some (Error ''Invalid duration limit.'')
      else None)"

definition solver_entry :: "FlybySequence \<Rightarrow> Editor \<Rightarrow> Editor" where
  "solver_entry s ed = resetFoundTrajectory (altitude_ranges_updated s ed)"

text \<open>The click handler of \<^verbatim>\<open>searchStartBtn\<close>.\<close>

definition searchStartBtn_click :: "Collaborators \<Rightarrow> Editor \<Rightarrow> Editor" where
  "searchStartBtn_click c ed =
     (let ed1 = ed\<lparr>searchStartBtn_enabled := False\<rparr>;
          ed2 = findTrajectory c ed1
      in ed2\<lparr>searchStartBtn_enabled := True\<rparr>)"

text \<open>The settings a call of \<^verbatim>\<open>findTrajectory\<close> hands to the solver for
  the sequence \<open>s\<close>.\<close>

definition solver_settings :: "FlybySequence \<Rightarrow> Editor \<Rightarrow> TrajectoryUserSettings" where
  "solver_settings s ed = user_settings (solver_entry s (findTrajectory_enter ed))"

section \<open>The flyby sequence generator\<close>

text \<open>
  Modelled from the spec: the system the generator searches (system.js and
  sequence-solver.js are missing), after sections 3 and 4.1: the list of its orbiting
  bodies. Every leg of a sequence is classified by the definitions of section 3, whatever
  the step of section 4.1 that adds it.
\<close>

record SolarSystem =
  orbiting :: "OrbitingBody list"

text \<open>
  Modelled from the spec: lookup of a body of the system by identity (system.js is missing).
\<close>

definition bodyFromId :: "SolarSystem \<Rightarrow> nat \<Rightarrow> OrbitingBody option" where
  "bodyFromId sys i = find (\<lambda>b. bodyId b = i) (orbiting sys)"

text \<open>
  Modelled from the spec: the derived metadata of a sequence of body identities. Its legs
  are its pairs of consecutive bodies. Every body between origin and destination is a
  gravity assist; a leg is resonant when it returns to the body it leaves, and a back leg
  when its target is closer to the central body than its source; the spacing between two
  consecutive back legs is the number of legs from the one to the other.
\<close>

definition consecutive :: "'a list \<Rightarrow> ('a \<times> 'a) list" where
  "consecutive xs = zip xs (tl xs)"

text \<open>
  Modelled from the spec: the legs of a sequence (sequence.js is missing), its pairs of consecutive
  bodies.
\<close>

definition legs :: "nat list \<Rightarrow> (nat \<times> nat) list" where
  "legs bodyIds = consecutive bodyIds"

text \<open>
  Modelled from the spec: a resonant leg (sequence-solver.js is missing) returns to the body it
  leaves.
\<close>

definition is_resonant :: "nat \<times> nat \<Rightarrow> bool" where
  "is_resonant leg = (fst leg = snd leg)"

text \<open>
  Modelled from the spec: a back leg (sequence-solver.js is missing) has a target closer to the
  central body than its source.
\<close>

definition is_back_leg :: "SolarSystem \<Rightarrow> nat \<times> nat \<Rightarrow> bool" where
  "is_back_leg sys leg =
     (case (bodyFromId sys (fst leg), bodyFromId sys (snd leg)) of
        (Some source, Some target) \<Rightarrow> semiMajorAxis target < semiMajorAxis source
      | _ \<Rightarrow> False)"

text \<open>
  Modelled from the spec: the number of gravity assists of a sequence (sequence.js is missing), its
  length minus 2.
\<close>

definition assists :: "nat list \<Rightarrow> int" where
  "assists bodyIds = int (length bodyIds) - 2"

text \<open>
  Modelled from the spec: the number of resonant assists of a sequence (sequence.js is missing).
\<close>

definition resonant_assists :: "nat list \<Rightarrow> nat" where
  "resonant_assists bodyIds = length (filter is_resonant (legs bodyIds))"

text \<open>
  Modelled from the spec: the number of back legs of a sequence (sequence.js is missing).
\<close>

definition back_legs :: "SolarSystem \<Rightarrow> nat list \<Rightarrow> nat" where
  "back_legs sys bodyIds = length (filter (is_back_leg sys) (legs bodyIds))"

text \<open>
  Modelled from the spec: the positions of the back legs among the legs of a sequence
  (sequence.js is missing).
\<close>

definition back_leg_positions :: "SolarSystem \<Rightarrow> nat list \<Rightarrow> nat list" where
  "back_leg_positions sys bodyIds =
     filter (\<lambda>i. is_back_leg sys (legs bodyIds ! i)) [0..<length (legs bodyIds)]"

text \<open>
  Modelled from the spec: the spacings, in legs, between consecutive back legs of a sequence
  (sequence.js is missing).
\<close>

definition back_leg_spacings :: "SolarSystem \<Rightarrow> nat list \<Rightarrow> nat list" where
  "back_leg_spacings sys bodyIds =
     map (\<lambda>(i, j). j - i) (consecutive (back_leg_positions sys bodyIds))"

text \<open>
  Modelled from the spec: the four bounds of the search parameters on a finished sequence
  (sequence-solver.js is missing).
\<close>

definition within_bounds :: "SolarSystem \<Rightarrow> SearchParams \<Rightarrow> nat list \<Rightarrow> bool" where
  "within_bounds sys p bodyIds =
     (assists bodyIds \<le> maxSwingBys p
      \<and> int (resonant_assists bodyIds) \<le> maxResonant p
      \<and> int (back_legs sys bodyIds) \<le> maxBackLegs p
      \<and> list_all (\<lambda>spacing. int spacing \<le> maxBackSpacing p) (back_leg_spacings sys bodyIds))"

text \<open>
  Modelled from the spec: a node of the depth-first expansion. It holds the bodies chosen
  so far with the counts the bounds are checked against: resonant assists, back legs, and
  the number of legs since the last back leg (none before the first one).
\<close>

record node =
  path :: "nat list"
  resonant :: nat
  backLegs :: nat
  sinceBack :: "nat option"

text \<open>
  Modelled from the spec: the node the expansion starts from (sequence-solver.js is missing): the
  departure body alone.
\<close>

definition root :: "SearchParams \<Rightarrow> node" where
  "root p = \<lparr>path = [departureId p], resonant = 0, backLegs = 0, sinceBack = None\<rparr>"

text \<open>
  Modelled from the spec: the candidate next bodies (sequence-solver.js is missing), the bodies
  sharing the attractor of the current body.
\<close>

definition candidates :: "SolarSystem \<Rightarrow> nat \<Rightarrow> nat list" where
  "candidates sys current =
     (case bodyFromId sys current of
        None \<Rightarrow> []
      | Some body \<Rightarrow>
          map bodyId (filter (\<lambda>b. attractorId b = attractorId body) (orbiting sys)))"

text \<open>
  Modelled from the spec: adding one leg to a node (sequence-solver.js is missing).
\<close>

definition add_leg :: "SolarSystem \<Rightarrow> node \<Rightarrow> nat \<Rightarrow> node" where
  "add_leg sys n b =
     (let leg = (last (path n), b)
      in \<lparr>path = path n @ [b],
          resonant = resonant n + (if is_resonant leg then 1 else 0),
          backLegs = backLegs n + (if is_back_leg sys leg then 1 else 0),
          sinceBack = (if is_back_leg sys leg then Some 0 else map_option Suc (sinceBack n))\<rparr>)"

text \<open>
  Modelled from the spec: whether the leg from a node to \<open>b\<close> stays within the resonant, back
  leg and back spacing bounds (sequence-solver.js is missing); the assist bound is the
  budget of the expansion.
\<close>

definition admissible :: "SolarSystem \<Rightarrow> SearchParams \<Rightarrow> node \<Rightarrow> nat \<Rightarrow> bool" where
  "admissible sys p n b =
     (let leg = (last (path n), b); n' = add_leg sys n b
      in int (resonant n') \<le> maxResonant p
         \<and> int (backLegs n') \<le> maxBackLegs p
         \<and> (if is_back_leg sys leg
             then (case sinceBack n of
                     None \<Rightarrow> True
                   | Some since \<Rightarrow> int (Suc since) \<le> maxBackSpacing p)
             else True))"

text \<open>
  Modelled from the spec: what the expansion does, in order (sequence-solver.js is missing): it
  expands a node, or completes a sequence at the destination.
\<close>

datatype visit = Expanded "nat list" | Complete "nat list"

text \<open>
  Modelled from the spec: one branch of a node (sequence-solver.js is missing). It is pruned when
  the leg exceeds a bound, complete when it reaches the destination, and an assist
  otherwise, which \<open>continue\<close> expands further.
\<close>

definition branch ::
  "SolarSystem \<Rightarrow> SearchParams \<Rightarrow> (node \<Rightarrow> visit list) \<Rightarrow> node \<Rightarrow> nat \<Rightarrow> visit list" where
  "branch sys p continue n b =
     (if \<not> admissible sys p n b then []
      else if b = destinationId p then [Complete (path (add_leg sys n b))]
      else continue (add_leg sys n b))"

text \<open>
  Modelled from the spec: the depth-first expansion of a node with a budget of assists
  (sequence-solver.js is missing). Each assist costs one, and with no budget left only the
  destination can follow.
\<close>

primrec expand :: "SolarSystem \<Rightarrow> SearchParams \<Rightarrow> nat \<Rightarrow> node \<Rightarrow> visit list" where
  "expand sys p 0 n =
     Expanded (path n) # concat (map (branch sys p (\<lambda>n'. []) n) (candidates sys (last (path n))))"
| "expand sys p (Suc budget) n =
     Expanded (path n) # concat (map (branch sys p (expand sys p budget) n) (candidates sys (last (path n))))"

text \<open>
  Modelled from the spec: the four bounds are non-negative integers (sequence-solver.js is
  missing).
\<close>

definition valid_bounds :: "SearchParams \<Rightarrow> bool" where
  "valid_bounds p =
     (0 \<le> maxSwingBys p \<and> 0 \<le> maxResonant p \<and> 0 \<le> maxBackLegs p \<and> 0 \<le> maxBackSpacing p)"

text \<open>
  Modelled from the spec: the whole search (sequence-solver.js is missing). Bounds that are not
  non-negative are a precondition violation, and nothing is searched.
\<close>

definition search :: "SolarSystem \<Rightarrow> SearchParams \<Rightarrow> visit list" where
  "search sys p =
     (if valid_bounds p then expand sys p (nat (maxSwingBys p)) (root p) else [])"

text \<open>
  Modelled from the spec: the sequences completed by a search (sequence-solver.js is missing).
\<close>

definition completed :: "visit list \<Rightarrow> nat list list" where
  "completed vs = concat (map (\<lambda>v. case v of Complete bodyIds \<Rightarrow> [bodyIds] | Expanded _ \<Rightarrow> []) vs)"

text \<open>
  Modelled from the spec: the nodes expanded by a search (sequence-solver.js is missing).
\<close>

definition expanded :: "visit list \<Rightarrow> nat list list" where
  "expanded vs = concat (map (\<lambda>v. case v of Expanded bodyIds \<Rightarrow> [bodyIds] | Complete _ \<Rightarrow> []) vs)"

text \<open>
  Modelled from the spec: the sequences the generator returns (sequence-solver.js is missing), as
  lists of body identities.
\<close>

definition generate :: "SolarSystem \<Rightarrow> SearchParams \<Rightarrow> nat list list" where
  "generate sys p = completed (search sys p)"

text \<open>
  Modelled from the spec: the generator as the editor calls it. It resolves with the
  sequences found, each with the bodies of its identities.
\<close>

text \<open>
  Modelled from the spec: a sequence object (sequence.js is missing) with the bodies the system has
  for its identities.
\<close>

definition mk_sequence :: "SolarSystem \<Rightarrow> nat list \<Rightarrow> FlybySequence" where
  "mk_sequence sys bodyIds = \<lparr>ids = bodyIds, bodies = List.map_filter (bodyFromId sys) bodyIds\<rparr>"

text \<open>
  Modelled from the spec: the generator as the editor calls it (sequence-solver.js is missing). It
  resolves with the sequences found.
\<close>

definition spec_generator :: "SolarSystem \<Rightarrow> SearchParams \<Rightarrow> thrown + FlybySequence list" where
  "spec_generator sys p = Inr (map (mk_sequence sys) (generate sys p))"

text \<open>
  The bounds on a node that is expanded: every body after the origin is an assist of any
  sequence completed below it.
\<close>

definition node_within_bounds :: "SolarSystem \<Rightarrow> SearchParams \<Rightarrow> nat list \<Rightarrow> bool" where
  "node_within_bounds sys p bodyIds =
     (int (length bodyIds) - 1 \<le> maxSwingBys p
      \<and> int (resonant_assists bodyIds) \<le> maxResonant p
      \<and> int (back_legs sys bodyIds) \<le> maxBackLegs p
      \<and> list_all (\<lambda>spacing. int spacing \<le> maxBackSpacing p) (back_leg_spacings sys bodyIds))"

text \<open>The counts of a node are the metadata of its path.\<close>

definition node_inv :: "SolarSystem \<Rightarrow> node \<Rightarrow> bool" where
  "node_inv sys n =
     (path n \<noteq> []
      \<and> resonant n = resonant_assists (path n)
      \<and> backLegs n = back_legs sys (path n)
      \<and> sinceBack n =
          (if back_leg_positions sys (path n) = [] then None
           else Some (length (legs (path n)) - 1 - last (back_leg_positions sys (path n)))))"

text \<open>What the bounds ask of one step of the expansion.\<close>

definition visit_ok :: "SolarSystem \<Rightarrow> SearchParams \<Rightarrow> visit \<Rightarrow> bool" where
  "visit_ok sys p v =
     (case v of
        Complete bodyIds \<Rightarrow>
          within_bounds sys p bodyIds \<and> hd bodyIds = departureId p
          \<and> last bodyIds = destinationId p \<and> 2 \<le> length bodyIds
      | Expanded bodyIds \<Rightarrow> node_within_bounds sys p bodyIds \<and> hd bodyIds = departureId p)"

section \<open>The trajectory solver\<close>

text \<open>
  Modelled from the spec: the trajectory solver (trajectory-solver.js is missing), after sections 3, 4.2 and 4.3. A candidate is a vector of continuous
  parameters. The solver is given its objective (the total delta-v of a candidate,
  penalised when infeasible), the update of the population at each generation, its
  iteration budget, the threshold and number of generations of its convergence test, and
  the generations at whose checkpoint a cancellation request is seen.
\<close>

type_synonym candidate = "real list"

record Solver =
  objective :: "candidate \<Rightarrow> real"
  evolve :: "nat \<Rightarrow> candidate list \<Rightarrow> candidate list"
  iterations :: nat
  threshold :: real
  sustained :: nat
  cancel_seen :: "nat \<Rightarrow> bool"

text \<open>A progress snapshot of the solver: iterations done, the iteration budget and the
  best delta-v found so far.\<close>

text \<open>
  Modelled from the spec: a progress snapshot of the solver (trajectory-solver.js is missing):
  iterations done, the iteration budget and the best delta-v found so far.
\<close>

record ProgressSnapshot =
  evaluated :: nat
  total :: nat
  bestDeltaV :: real

text \<open>
  Modelled from the spec: how a search ends (trajectory-solver.js is missing): with the best
  candidate and its delta-v, by cancellation, or with no candidate at all.
\<close>

datatype search_outcome = Found candidate real | Cancelled | NoCandidate

text \<open>
  Modelled from the spec: the best candidate so far after looking at a population
  (trajectory-solver.js is missing).
\<close>

definition best_of :: "(candidate \<Rightarrow> real) \<Rightarrow> candidate list \<Rightarrow> candidate \<times> real \<Rightarrow> candidate \<times> real" where
  "best_of f population best =
     fold (\<lambda>c b. if f c < snd b then (c, f c) else b) population best"

text \<open>
  Modelled from the spec: convergence (trajectory-solver.js is missing). Over the last
  \<open>sustained\<close> generations the best value improved by less than the threshold. The
  history holds the best values, newest first.
\<close>

definition converged :: "Solver \<Rightarrow> real list \<Rightarrow> bool" where
  "converged S history =
     (sustained S < length history \<and> history ! sustained S - hd history < threshold S)"

text \<open>
  Modelled from the spec: the generations that remain (trajectory-solver.js is missing). At its
  checkpoint a generation first looks for a cancellation request, then updates the
  population and the best candidate and emits a snapshot, and stops when converged.
\<close>

fun generations ::
  "Solver \<Rightarrow> nat \<Rightarrow> nat \<Rightarrow> candidate list \<Rightarrow> candidate \<times> real \<Rightarrow> real list
     \<Rightarrow> ProgressSnapshot list \<times> search_outcome" where
  "generations S 0 i population best history = ([], Found (fst best) (snd best))"
| "generations S (Suc remaining) i population best history =
     (if cancel_seen S i then ([], Cancelled)
      else
        (let population' = evolve S i population;
             best' = best_of (objective S) population' best;
             snapshot = \<lparr>evaluated = Suc i, total = iterations S, bestDeltaV = snd best'\<rparr>;
             history' = snd best' # history
         in if converged S history' then ([snapshot], Found (fst best') (snd best'))
            else (case generations S remaining (Suc i) population' best' history' of
                    (snapshots, outcome) \<Rightarrow> (snapshot # snapshots, outcome))))"

text \<open>
  Modelled from the spec: a whole search from an initial population (trajectory-solver.js is
  missing): the snapshots emitted, in order, and the outcome.
\<close>

definition run_search :: "Solver \<Rightarrow> candidate list \<Rightarrow> ProgressSnapshot list \<times> search_outcome" where
  "run_search S population =
     (case population of
        [] \<Rightarrow> ([], NoCandidate)
      | c # cs \<Rightarrow>
          (let best = best_of (objective S) cs (c, objective S c)
           in generations S (iterations S) 0 population best [snd best]))"

section \<open>The canonical string of a sequence\<close>

text \<open>
  Modelled from the spec: the canonical body-id string of a flyby sequence and
  \<^verbatim>\<open>FlybySequence.fromString\<close> (sequence.js is missing), after
  sections 3 and 8. The string lists the identities of the bodies in order, each in
  decimal, separated by \<^verbatim>\<open>-\<close>; parsing splits at the separator, reads each
  part as a decimal number and looks the body up in the system.
\<close>

definition digit_char :: "nat \<Rightarrow> char" where
  "digit_char d = char_of (48 + d)"

text \<open>
  Modelled from the spec: the value of a decimal digit (sequence.js is missing), none for any other
  character.
\<close>

definition digit_value :: "char \<Rightarrow> nat option" where
  "digit_value c =
     (let code = (of_char c :: nat)
      in if 48 \<le> code \<and> code \<le> 57 then Some (code - 48) else None)"

text \<open>
  Modelled from the spec: a body identity in decimal (sequence.js is missing).
\<close>

fun decimal :: "nat \<Rightarrow> string" where
  "decimal n = (if n < 10 then [digit_char n] else decimal (n div 10) @ [digit_char (n mod 10)])"

declare decimal.simps [simp del]

text \<open>
  Modelled from the spec: reading one more digit of a number (sequence.js is missing).
\<close>

definition read_digit :: "char \<Rightarrow> nat option \<Rightarrow> nat option" where
  "read_digit c acc =
     (case (acc, digit_value c) of
        (Some a, Some d) \<Rightarrow> Some (10 * a + d)
      | _ \<Rightarrow> None)"

text \<open>
  Modelled from the spec: reading a decimal number (sequence.js is missing): a non-empty string of
  digits.
\<close>

definition parse_decimal :: "string \<Rightarrow> nat option" where
  "parse_decimal str = (if str = [] then None else fold read_digit str (Some 0))"

text \<open>
  Modelled from the spec: the parts of a canonical string joined by the separator (sequence.js is
  missing).
\<close>

fun join :: "string list \<Rightarrow> string" where
  "join [] = []"
| "join [part] = part"
| "join (part # parts) = part @ CHR ''-'' # join parts"

text \<open>
  Modelled from the spec: a string split at the separator (sequence.js is missing).
\<close>

fun split :: "string \<Rightarrow> string list" where
  "split [] = [[]]"
| "split (c # cs) =
     (if c = CHR ''-'' then [] # split cs
      else (case split cs of
              part # parts \<Rightarrow> (c # part) # parts
            | [] \<Rightarrow> [[c]]))"

text \<open>
  Modelled from the spec: the canonical body-id string of a sequence (sequence.js is missing).
\<close>

definition seqString :: "FlybySequence \<Rightarrow> string" where
  "seqString s = join (map decimal (ids s))"

text \<open>
  Modelled from the spec: the error of \<^verbatim>\<open>FlybySequence.fromString\<close> (sequence.js is
  missing) on a string that is not the canonical string of a sequence of the system.
\<close>

definition invalid_sequence_input :: thrown where
  "invalid_sequence_input = Error ''Invalid custom sequence input.''"

text \<open>
  Modelled from the spec: \<^verbatim>\<open>FlybySequence.fromString\<close> (sequence.js is missing).
\<close>

definition FlybySequence_fromString :: "SolarSystem \<Rightarrow> string \<Rightarrow> thrown + FlybySequence" where
  "FlybySequence_fromString sys str =
     (case those (map parse_decimal (split str)) of
        None \<Rightarrow> Inl invalid_sequence_input
      | Some bodyIds \<Rightarrow>
          (case those (map (bodyFromId sys) bodyIds) of
             None \<Rightarrow> Inl invalid_sequence_input
           | Some found \<Rightarrow> Inr \<lparr>ids = bodyIds, bodies = found\<rparr>))"

text \<open>
  Modelled from the spec: a valid sequence of a system (sequence.js is missing): not empty, with
  the bodies the system has for its identities.
\<close>

definition valid_sequence :: "SolarSystem \<Rightarrow> FlybySequence \<Rightarrow> bool" where
  "valid_sequence sys s =
     (ids s \<noteq> [] \<and> map (bodyFromId sys) (ids s) = map Some (bodies s))"

section \<open>Cancellation in the core\<close>













section \<open>Example inputs\<close>

text \<open>Three bodies: two orbit the same attractor, the third orbits the first.\<close>

definition example_earth :: OrbitingBody where
  "example_earth = \<lparr>bodyId = 3, attractorId = 0, soi = 2311000500, radius = 15927500,
       semiMajorAxis = 149598261000\<rparr>"

definition example_mars :: OrbitingBody where
  "example_mars = \<lparr>bodyId = 4, attractorId = 0, soi = 1443000000, radius = 8474000,
       semiMajorAxis = 227943824000\<rparr>"

definition example_moon :: OrbitingBody where
  "example_moon = \<lparr>bodyId = 5, attractorId = 3, soi = 165000000, radius = 4343500,
       semiMajorAxis = 961000000\<rparr>"

definition example_sequence :: FlybySequence where
  "example_sequence = \<lparr>ids = [3, 4], bodies = [example_earth, example_mars]\<rparr>"

definition example_input :: "int \<Rightarrow> IntegerInput" where
  "example_input v =
     \<lparr>input_value = v, input_min = 0, input_max = 100, input_invalid = None,
      input_after_range = (\<lambda>lo hi x. max lo (min x hi))\<rparr>"

text \<open>An editor ready for both searches: valid inputs, a departure window of one day,
  an empty custom sequence field and one sequence in the selector. Its arithmetic is
  exact, as double precision is on the numbers of the examples.\<close>

definition example_editor :: Editor where
  "example_editor =
     \<lparr>systemSelector_enabled = True,
      console_errors = [],
      to_double = (\<lambda>x. x),
      sequenceSelector_enabled = True,
      sequenceSelector_items = [example_sequence],
      sequenceSelector_index = 0,
      originSelector_body = example_earth,
      destSelector_body = example_mars,
      maxSwingBysInput = example_input 2,
      maxResonantInput = example_input 1,
      maxBackLegsInput = example_input 1,
      maxBackSpacingInput = example_input 2,
      progressMsg_enabled = False,
      sequence_paramsErr = None,
      seqGenBtn_enabled = True,
      generator_calls = [],
      config_time = \<lparr>time_type = ''base'', hoursPerDay = 24\<rparr>,
      timeRangeStart = \<lparr>time_valid = True, dateSeconds = 0\<rparr>,
      timeRangeEnd = \<lparr>time_valid = True, dateSeconds = 86400\<rparr>,
      depAltitude = example_input 5000000,
      destAltitude = example_input (- 7),
      maxDuration = example_input 1000,
      useMaxDuration_checked = False,
      noInsertionBox_checked = False,
      customSequence_value = [],
      deltaVPlot_visible = False,
      search_paramsErr = None,
      trajectory_drawn = False,
      detailsSelector_enabled = False,
      stepSlider_enabled = False,
      showTrajDetailsBtn_enabled = False,
      downloadTrajDataBtn_enabled = False,
      trajectoryCounter = 0,
      searchStartBtn_enabled = True,
      solver_calls = []\<rparr>"

text \<open>Collaborators whose searches end by cancellation, and collaborators whose
  searches end with a result.\<close>

definition cancelled_run :: Collaborators where
  "cancelled_run =
     \<lparr>generateFlybySequences = (\<lambda>params. Inl (Error WORKER_CANCELLED)),
      fromString = (\<lambda>str. Inl (Error ''Invalid custom sequence input.'')),
      searchOptimalTrajectory = (\<lambda>sequence settings. Some (Error TRAJECTORY_FINDER_CANCELLED))\<rparr>"

definition successful_run :: Collaborators where
  "successful_run =
     \<lparr>generateFlybySequences = (\<lambda>params. Inr [example_sequence]),
      fromString = (\<lambda>str. Inr example_sequence),
      searchOptimalTrajectory = (\<lambda>sequence settings. None)\<rparr>"

text \<open>A system of five bodies and search parameters for it.\<close>

definition example_venus :: OrbitingBody where
  "example_venus = \<lparr>bodyId = 2, attractorId = 0, soi = 1540000000, radius = 15130000,
       semiMajorAxis = 108208000000\<rparr>"

definition example_mercury :: OrbitingBody where
  "example_mercury = \<lparr>bodyId = 1, attractorId = 0, soi = 280000000, radius = 6100000,
       semiMajorAxis = 57909000000\<rparr>"

definition example_system :: SolarSystem where
  "example_system =
     \<lparr>orbiting = [example_mercury, example_venus, example_earth, example_mars, example_moon]\<rparr>"

definition example_params :: SearchParams where
  "example_params = \<lparr>departureId = 3, destinationId = 4, maxBackSpacing = 1,
     maxSwingBys = 2, maxResonant = 1, maxBackLegs = 2\<rparr>"

text \<open>A solver whose population first improves and then gets worse.\<close>

definition example_solver :: Solver where
  "example_solver =
     \<lparr>objective = (\<lambda>c. case c of [] \<Rightarrow> 0 | x # _ \<Rightarrow> x * x),
      evolve = (\<lambda>i population. map (map (\<lambda>x. x - 3)) population),
      iterations = 5,
      threshold = 1,
      sustained = 2,
      cancel_seen = (\<lambda>i. False)\<rparr>"

text \<open>Collaborators with the modelled generator behind the editor.\<close>

definition generating_run :: Collaborators where
  "generating_run = successful_run\<lparr>generateFlybySequences := spec_generator example_system\<rparr>"




section \<open>Properties of the editor\<close>

lemmas ex_defs = example_editor_def example_input_def example_sequence_def example_earth_def
  example_mars_def example_moon_def cancelled_run_def successful_run_def

section \<open>Sequence generation: the try block\<close>

lemma assertSequenceInputs_fails:
  assumes "attractorId (originSelector_body ed) \<noteq> attractorId (destSelector_body ed)
         \<or> bodyId (originSelector_body ed) = bodyId (destSelector_body ed)"
  shows "assertSequenceInputs ed \<noteq> None"
  using assms by (auto simp: assertSequenceInputs_def Let_def split: option.splits)

lemma assertSequenceInputs_valid_inputs:
  assumes "assertValidity (maxBackSpacingInput ed) = None" "assertValidity (maxSwingBysInput ed) = None"
     "assertValidity (maxResonantInput ed) = None" "assertValidity (maxBackLegsInput ed) = None"
  shows "assertSequenceInputs ed =
     (if attractorId (originSelector_body ed) \<noteq> attractorId (destSelector_body ed)
      then Some (Error ''Origin and destination bodies must orbit the same body.'')
      else if bodyId (originSelector_body ed) = bodyId (destSelector_body ed)
      then Some (Error ''Same origin and destination bodies.'')
      else None)"
  using assms by (simp add: assertSequenceInputs_def Let_def)

lemma assertSequenceInputs_entry: "assertSequenceInputs (try_entry ed) = assertSequenceInputs ed"
  by (simp add: try_entry_def assertSequenceInputs_def generateSequences_enter_def Let_def split: option.splits)

lemma sequence_params_entry: "sequence_params (try_entry ed) = sequence_params ed"
  by (simp add: try_entry_def sequence_params_def generateSequences_enter_def Let_def)

lemma try_assert_fails:
  assumes "assertSequenceInputs ed = Some err"
  shows "generateSequences_try c (generateSequences_enter ed) = (try_entry ed, Some err)"
  using assms assertSequenceInputs_entry[of ed]
  by (simp add: generateSequences_try_def Let_def try_entry_def)

lemma try_generator_rejects:
  assumes "assertSequenceInputs ed = None" "generateFlybySequences c (sequence_params ed) = Inl err"
  shows "generateSequences_try c (generateSequences_enter ed) =
     (try_entry ed\<lparr>generator_calls := generator_calls ed @ [sequence_params ed]\<rparr>, Some err)"
  using assms assertSequenceInputs_entry[of ed] sequence_params_entry[of ed]
  by (simp add: generateSequences_try_def runSequenceGeneration_def Let_def try_entry_def generateSequences_enter_def)

lemma try_generator_resolves:
  assumes "assertSequenceInputs ed = None" "generateFlybySequences c (sequence_params ed) = Inr seqs"
  shows "generateSequences_try c (generateSequences_enter ed) =
     (try_entry ed\<lparr>generator_calls := generator_calls ed @ [sequence_params ed],
         sequenceSelector_items := seqs, sequenceSelector_enabled := True\<rparr>, None)"
  using assms assertSequenceInputs_entry[of ed] sequence_params_entry[of ed]
  by (simp add: generateSequences_try_def runSequenceGeneration_def Let_def try_entry_def generateSequences_enter_def)

lemma try_entry_fields [simp]:
  "generator_calls (try_entry ed) = generator_calls ed"
  "console_errors (try_entry ed) = console_errors ed"
  "sequenceSelector_items (try_entry ed) = []"
  "sequenceSelector_enabled (try_entry ed) = False"
  "sequence_paramsErr (try_entry ed) = None"
  by (simp_all add: try_entry_def generateSequences_enter_def)

text \<open>
  C4: a call of \<^verbatim>\<open>generateSequences\<close> whose origin and destination orbit different
  attractors, or are the same body, throws inside the try block before
  \<^verbatim>\<open>runSequenceGeneration\<close>: the generator is not invoked (the result does not
  depend on it), the sequence selector stays disabled, and when the four integer inputs are
  valid the error shown is the one of the violated check.
\<close>

theorem generateSequences_precondition:
  assumes "attractorId (originSelector_body ed) \<noteq> attractorId (destSelector_body ed)
         \<or> bodyId (originSelector_body ed) = bodyId (destSelector_body ed)"
  shows "generateSequences_thrown c ed \<noteq> None
       \<and> generator_calls (generateSequences c ed) = generator_calls ed
       \<and> generateSequences c ed = generateSequences c' ed
       \<and> \<not> sequenceSelector_enabled (generateSequences c ed)
       \<and> (assertValidity (maxBackSpacingInput ed) = None \<and> assertValidity (maxSwingBysInput ed) = None
          \<and> assertValidity (maxResonantInput ed) = None \<and> assertValidity (maxBackLegsInput ed) = None
          \<longrightarrow> sequence_paramsErr (generateSequences c ed) =
               Some (Error (if attractorId (originSelector_body ed) \<noteq> attractorId (destSelector_body ed)
                            then ''Origin and destination bodies must orbit the same body.''
                            else ''Same origin and destination bodies.'')))"
proof -
  from assertSequenceInputs_fails[OF assms] obtain err where e: "assertSequenceInputs ed = Some err"
    by auto
  have main: "generateSequences_thrown c ed \<noteq> None
       \<and> generator_calls (generateSequences c ed) = generator_calls ed
       \<and> generateSequences c ed = generateSequences c' ed
       \<and> \<not> sequenceSelector_enabled (generateSequences c ed)"
    by (simp add: generateSequences_def generateSequences_thrown_def try_assert_fails[OF e]
        generateSequences_catch_def Let_def)
  have msg: "sequence_paramsErr (generateSequences c ed) =
               Some (Error (if attractorId (originSelector_body ed) \<noteq> attractorId (destSelector_body ed)
                            then ''Origin and destination bodies must orbit the same body.''
                            else ''Same origin and destination bodies.''))"
    if v: "assertValidity (maxBackSpacingInput ed) = None" "assertValidity (maxSwingBysInput ed) = None"
          "assertValidity (maxResonantInput ed) = None" "assertValidity (maxBackLegsInput ed) = None"
  proof -
    have "err = Error (if attractorId (originSelector_body ed) \<noteq> attractorId (destSelector_body ed)
                            then ''Origin and destination bodies must orbit the same body.''
                            else ''Same origin and destination bodies.'')"
      using e assms assertSequenceInputs_valid_inputs[OF v] by (auto split: if_splits)
    then show ?thesis
      by (simp add: generateSequences_def try_assert_fails[OF e]
        generateSequences_catch_def Let_def instanceof_Error_def message_def WORKER_CANCELLED_def)
  qed
  show ?thesis using main msg by blast
qed

theorem generateSequences_precondition_witness:
  "generator_calls (generateSequences successful_run (example_editor\<lparr>destSelector_body := example_moon\<rparr>)) = []
   \<and> sequence_paramsErr (generateSequences successful_run (example_editor\<lparr>destSelector_body := example_moon\<rparr>))
       = Some (Error ''Origin and destination bodies must orbit the same body.'')
   \<and> generator_calls (generateSequences successful_run (example_editor\<lparr>destSelector_body := example_earth\<rparr>)) = []
   \<and> sequence_paramsErr (generateSequences successful_run (example_editor\<lparr>destSelector_body := example_earth\<rparr>))
       = Some (Error ''Same origin and destination bodies.'')"
  using generateSequences_precondition[of "example_editor\<lparr>destSelector_body := example_moon\<rparr>" successful_run successful_run]
        generateSequences_precondition[of "example_editor\<lparr>destSelector_body := example_earth\<rparr>" successful_run successful_run]
  by (simp add: ex_defs assertValidity_def)

section \<open>Trajectory search: the try block\<close>

lemma findTrajectory_sequence_enter:
  "findTrajectory_sequence c (findTrajectory_enter ed) = findTrajectory_sequence c ed"
  by (simp add: findTrajectory_sequence_def findTrajectory_enter_def sequenceSelector_sequence_def Let_def)

lemma bodies_at_first: "bodies s \<noteq> [] \<Longrightarrow> bodies_at s 0 = Some (hd (bodies s))"
  by (cases "bodies s") (simp_all add: bodies_at_def)

lemma bodies_at_last: "bodies s \<noteq> [] \<Longrightarrow> bodies_at s (int (seq_length s) - 1) = Some (last (bodies s))"
  by (cases "bodies s" rule: rev_cases) (simp_all add: bodies_at_def seq_length_def nth_append)

lemma bodies_at_empty: "bodies s = [] \<Longrightarrow> bodies_at s i = None"
  by (simp add: bodies_at_def)

lemma try_sequence_throws:
  "findTrajectory_sequence c ed = Inl err \<Longrightarrow> findTrajectory_try c ed = (ed, Some err)"
  by (simp add: findTrajectory_try_def)

lemma try_sequence_undefined:
  "findTrajectory_sequence c ed = Inr None \<Longrightarrow> findTrajectory_try c ed = (ed, Some TypeError_undefined)"
  by (simp add: findTrajectory_try_def)

lemma try_sequence_empty:
  "findTrajectory_sequence c ed = Inr (Some s) \<Longrightarrow> bodies s = [] \<Longrightarrow>
   findTrajectory_try c ed = (ed, Some TypeError_undefined)"
  by (simp add: findTrajectory_try_def bodies_at_empty)

lemma try_validation_fails:
  assumes "findTrajectory_sequence c ed = Inr (Some s)" "bodies s \<noteq> []" "validation_error ed = Some err"
  shows "findTrajectory_try c ed = (altitude_ranges_updated s ed, Some err)"
  using assms(3)
  by (auto simp: findTrajectory_try_def assms(1) bodies_at_first[OF assms(2)] bodies_at_last[OF assms(2)]
      Let_def altitude_ranges_updated_def validation_error_def date_error_def split: if_splits)

lemma altitude_ranges_updated_fields [simp]:
  "timeRangeStart (altitude_ranges_updated s ed) = timeRangeStart ed"
  "timeRangeEnd (altitude_ranges_updated s ed) = timeRangeEnd ed"
  "maxDuration (altitude_ranges_updated s ed) = maxDuration ed"
  "solver_calls (altitude_ranges_updated s ed) = solver_calls ed"
  "console_errors (altitude_ranges_updated s ed) = console_errors ed"
  "search_paramsErr (altitude_ranges_updated s ed) = search_paramsErr ed"
  "depAltitude (altitude_ranges_updated s ed)
     = updateAltitudeRange (to_double ed) (depAltitude ed) (hd (bodies s))"
  "destAltitude (altitude_ranges_updated s ed)
     = updateAltitudeRange (to_double ed) (destAltitude ed) (last (bodies s))"
  by (simp_all add: altitude_ranges_updated_def)

lemma resetFoundTrajectory_fields [simp]:
  "solver_calls (resetFoundTrajectory ed) = solver_calls ed"
  "console_errors (resetFoundTrajectory ed) = console_errors ed"
  "search_paramsErr (resetFoundTrajectory ed) = search_paramsErr ed"
  "depAltitude (resetFoundTrajectory ed) = depAltitude ed"
  "destAltitude (resetFoundTrajectory ed) = destAltitude ed"
  "timeRangeStart (resetFoundTrajectory ed) = timeRangeStart ed"
  "timeRangeEnd (resetFoundTrajectory ed) = timeRangeEnd ed"
  by (simp_all add: resetFoundTrajectory_def)

lemma try_reaches_solver:
  assumes "findTrajectory_sequence c ed = Inr (Some s)" "bodies s \<noteq> []" "validation_error ed = None"
  shows "findTrajectory_try c ed =
    (let ed3 = solver_entry s ed; us = user_settings ed3;
         ed4 = ed3\<lparr>solver_calls := solver_calls ed @ [(s, us)]\<rparr>
     in case searchOptimalTrajectory c s us of
          Some err \<Rightarrow> (ed4, Some err)
        | None \<Rightarrow> (displayFoundTrajectory s ed4, None))"
proof -
  show ?thesis
    using assms(3)
    by (auto simp: findTrajectory_try_def assms(1) bodies_at_first[OF assms(2)] bodies_at_last[OF assms(2)]
      Let_def altitude_ranges_updated_def[symmetric] validation_error_def solver_entry_def
      split: if_splits cong: option.case_cong)
qed

lemma findTrajectory_enter_fields [simp]:
  "timeRangeStart (findTrajectory_enter ed) = timeRangeStart ed"
  "timeRangeEnd (findTrajectory_enter ed) = timeRangeEnd ed"
  "maxDuration (findTrajectory_enter ed) = maxDuration ed"
  "solver_calls (findTrajectory_enter ed) = solver_calls ed"
  "console_errors (findTrajectory_enter ed) = console_errors ed"
  "search_paramsErr (findTrajectory_enter ed) = None"
  "depAltitude (findTrajectory_enter ed) = depAltitude ed"
  "destAltitude (findTrajectory_enter ed) = destAltitude ed"
  by (simp_all add: findTrajectory_enter_def)

lemma validation_error_enter: "validation_error (findTrajectory_enter ed) = validation_error ed"
  by (simp add: validation_error_def)

lemma solver_entry_fields [simp]:
  "solver_calls (solver_entry s ed) = solver_calls ed"
  "console_errors (solver_entry s ed) = console_errors ed"
  "search_paramsErr (solver_entry s ed) = search_paramsErr ed"
  "depAltitude (solver_entry s ed)
     = updateAltitudeRange (to_double ed) (depAltitude ed) (hd (bodies s))"
  "destAltitude (solver_entry s ed)
     = updateAltitudeRange (to_double ed) (destAltitude ed) (last (bodies s))"
  "timeRangeStart (solver_entry s ed) = timeRangeStart ed"
  "timeRangeEnd (solver_entry s ed) = timeRangeEnd ed"
  by (simp_all add: solver_entry_def)

lemma displayFoundTrajectory_fields [simp]:
  "solver_calls (displayFoundTrajectory s ed) = solver_calls ed"
  "console_errors (displayFoundTrajectory s ed) = console_errors ed"
  "search_paramsErr (displayFoundTrajectory s ed) = search_paramsErr ed"
  "depAltitude (displayFoundTrajectory s ed) = depAltitude ed"
  "destAltitude (displayFoundTrajectory s ed) = destAltitude ed"
  by (simp_all add: displayFoundTrajectory_def)

lemma findTrajectory_catch_fields [simp]:
  "solver_calls (findTrajectory_catch err ed) = solver_calls ed"
  "console_errors (findTrajectory_catch err ed) = console_errors ed @ [err]"
  "depAltitude (findTrajectory_catch err ed) = depAltitude ed"
  "destAltitude (findTrajectory_catch err ed) = destAltitude ed"
  "search_paramsErr (findTrajectory_catch err ed) =
     (if instanceof_Error err \<and> message err \<noteq> TRAJECTORY_FINDER_CANCELLED then Some err
      else search_paramsErr ed)"
  by (simp_all add: findTrajectory_catch_def Let_def)

text \<open>The five ways through the try block, for a whole call.\<close>

lemma findTrajectory_paths:
  obtains (throws) err where "findTrajectory_sequence c ed = Inl err"
      "findTrajectory_try c (findTrajectory_enter ed) = (findTrajectory_enter ed, Some err)"
  | (undefined) "findTrajectory_sequence c ed = Inr None"
      "findTrajectory_try c (findTrajectory_enter ed) = (findTrajectory_enter ed, Some TypeError_undefined)"
  | (empty) s where "findTrajectory_sequence c ed = Inr (Some s)" "bodies s = []"
      "findTrajectory_try c (findTrajectory_enter ed) = (findTrajectory_enter ed, Some TypeError_undefined)"
  | (invalid) s err where "findTrajectory_sequence c ed = Inr (Some s)" "bodies s \<noteq> []"
      "validation_error ed = Some err"
      "findTrajectory_try c (findTrajectory_enter ed)
         = (altitude_ranges_updated s (findTrajectory_enter ed), Some err)"
  | (solver) s where "findTrajectory_sequence c ed = Inr (Some s)" "bodies s \<noteq> []"
      "validation_error ed = None"
      "findTrajectory_try c (findTrajectory_enter ed) =
        (let ed3 = solver_entry s (findTrajectory_enter ed); us = user_settings ed3;
             ed4 = ed3\<lparr>solver_calls := solver_calls ed @ [(s, us)]\<rparr>
         in case searchOptimalTrajectory c s us of
              Some err \<Rightarrow> (ed4, Some err)
            | None \<Rightarrow> (displayFoundTrajectory s ed4, None))"
proof (cases "findTrajectory_sequence c ed")
  case (Inl err)
  then show ?thesis
    using throws try_sequence_throws[of c "findTrajectory_enter ed" err]
    by (simp add: findTrajectory_sequence_enter)
next
  case (Inr so)
  show ?thesis
  proof (cases so)
    case None
    then show ?thesis
      using Inr undefined try_sequence_undefined[of c "findTrajectory_enter ed"]
      by (simp add: findTrajectory_sequence_enter)
  next
    case (Some s)
    show ?thesis
    proof (cases "bodies s = []")
      case True
      then show ?thesis
        using Inr Some empty try_sequence_empty[of c "findTrajectory_enter ed" s]
        by (simp add: findTrajectory_sequence_enter)
    next
      case False
      show ?thesis
      proof (cases "validation_error ed")
        case None
        then show ?thesis
          using Inr Some False solver[of s] try_reaches_solver[of c "findTrajectory_enter ed" s]
          by (simp add: findTrajectory_sequence_enter validation_error_enter)
      next
        case (Some err)
        then show ?thesis
          using Inr \<open>so = Some s\<close> False invalid[of s err]
            try_validation_fails[of c "findTrajectory_enter ed" s err]
          by (simp add: findTrajectory_sequence_enter validation_error_enter)
      qed
    qed
  qed
qed


lemma validation_error_dates:
  "dateSeconds (timeRangeEnd ed) < dateSeconds (timeRangeStart ed) \<Longrightarrow> validation_error ed \<noteq> None"
  by (simp add: validation_error_def)

lemma validation_error_dates_valid:
  "dateSeconds (timeRangeEnd ed) < dateSeconds (timeRangeStart ed) \<Longrightarrow>
   time_valid (timeRangeStart ed) \<Longrightarrow> time_valid (timeRangeEnd ed) \<Longrightarrow>
   validation_error ed = Some date_error"
  by (simp add: validation_error_def)

lemma date_error_shown [simp]:
  "instanceof_Error date_error" "message date_error \<noteq> TRAJECTORY_FINDER_CANCELLED"
  by (simp_all add: date_error_def instanceof_Error_def message_def TRAJECTORY_FINDER_CANCELLED_def)

text \<open>
  C5: a call of \<^verbatim>\<open>findTrajectory\<close> whose departure window ends before it starts
  throws inside the try block and never calls \<^verbatim>\<open>solver.searchOptimalTrajectory\<close>
  (the result does not depend on the solver); when the run gets to the date range check
  (a sequence with at least one body, both time selectors valid), the error thrown and
  shown is the one of that check.
\<close>

theorem findTrajectory_rejects_reversed_window:
  assumes "dateSeconds (timeRangeEnd ed) < dateSeconds (timeRangeStart ed)"
  shows "findTrajectory_thrown c ed \<noteq> None
       \<and> solver_calls (findTrajectory c ed) = solver_calls ed
       \<and> findTrajectory (c\<lparr>searchOptimalTrajectory := other_solver\<rparr>) ed = findTrajectory c ed
       \<and> (\<forall>s. findTrajectory_sequence c ed = Inr (Some s) \<and> bodies s \<noteq> []
               \<and> time_valid (timeRangeStart ed) \<and> time_valid (timeRangeEnd ed)
            \<longrightarrow> findTrajectory_thrown c ed = Some date_error
              \<and> search_paramsErr (findTrajectory c ed) = Some date_error)"
proof -
  let ?c' = "c\<lparr>searchOptimalTrajectory := other_solver\<rparr>"
  have same_seq: "findTrajectory_sequence ?c' ed = findTrajectory_sequence c ed"
    by (simp add: findTrajectory_sequence_def)
  note ve = validation_error_dates[OF assms]
  have a: "findTrajectory_thrown c ed \<noteq> None \<and> solver_calls (findTrajectory c ed) = solver_calls ed"
    using ve by (cases c ed rule: findTrajectory_paths)
      (simp_all add: findTrajectory_def findTrajectory_thrown_def Let_def)
  have b: "findTrajectory ?c' ed = findTrajectory c ed"
  proof (cases c ed rule: findTrajectory_paths)
    case (throws err)
    then show ?thesis
      using try_sequence_throws[of ?c' "findTrajectory_enter ed" err] same_seq
      by (simp add: findTrajectory_def Let_def findTrajectory_sequence_enter)
  next
    case undefined
    then show ?thesis
      using try_sequence_undefined[of ?c' "findTrajectory_enter ed"] same_seq
      by (simp add: findTrajectory_def Let_def findTrajectory_sequence_enter)
  next
    case (empty s)
    then show ?thesis
      using try_sequence_empty[of ?c' "findTrajectory_enter ed" s] same_seq
      by (simp add: findTrajectory_def Let_def findTrajectory_sequence_enter)
  next
    case (invalid s err)
    then show ?thesis
      using try_validation_fails[of ?c' "findTrajectory_enter ed" s err] same_seq
      by (simp add: findTrajectory_def Let_def findTrajectory_sequence_enter validation_error_enter)
  next
    case (solver s)
    then show ?thesis using ve by simp
  qed
  have d: "findTrajectory_thrown c ed = Some date_error
              \<and> search_paramsErr (findTrajectory c ed) = Some date_error"
    if "findTrajectory_sequence c ed = Inr (Some s)" "bodies s \<noteq> []"
       "time_valid (timeRangeStart ed)" "time_valid (timeRangeEnd ed)" for s
    using that validation_error_dates_valid[OF assms that(3,4)]
    by (cases c ed rule: findTrajectory_paths)
      (simp_all add: findTrajectory_def findTrajectory_thrown_def Let_def)
  show ?thesis using a b d by blast
qed

theorem findTrajectory_rejects_reversed_window_witness:
  "solver_calls (findTrajectory successful_run
      (example_editor\<lparr>timeRangeEnd := \<lparr>time_valid = True, dateSeconds = - 5\<rparr>\<rparr>)) = []
   \<and> search_paramsErr (findTrajectory successful_run
      (example_editor\<lparr>timeRangeEnd := \<lparr>time_valid = True, dateSeconds = - 5\<rparr>\<rparr>)) = Some date_error"
  using findTrajectory_rejects_reversed_window
    [of "example_editor\<lparr>timeRangeEnd := \<lparr>time_valid = True, dateSeconds = - 5\<rparr>\<rparr>" successful_run]
  by (simp add: ex_defs findTrajectory_sequence_def sequenceSelector_sequence_def)


section \<open>Equal start and end dates\<close>

lemma validation_error_None_iff:
  "validation_error ed = None \<longleftrightarrow>
     time_valid (timeRangeStart ed) \<and> time_valid (timeRangeEnd ed)
     \<and> \<not> dateSeconds (timeRangeEnd ed) < dateSeconds (timeRangeStart ed)
     \<and> validate (maxDuration ed)"
  by (auto simp: validation_error_def)

lemma solver_settings_dates:
  "startDate (solver_settings s ed) = dateSeconds (timeRangeStart ed)"
  "endDate (solver_settings s ed) = dateSeconds (timeRangeEnd ed)"
  by (simp_all add: user_settings_def solver_settings_def)

lemma findTrajectory_solver_called:
  assumes "findTrajectory_sequence c ed = Inr (Some s)" and "bodies s \<noteq> []"
    and "validation_error ed = None"
  shows "solver_calls (findTrajectory c ed) = solver_calls ed @ [(s, solver_settings s ed)]"
    and "findTrajectory_thrown c ed = searchOptimalTrajectory c s (solver_settings s ed)"
proof -
  have t: "findTrajectory_try c (findTrajectory_enter ed) =
        (let ed3 = solver_entry s (findTrajectory_enter ed); us = user_settings ed3;
             ed4 = ed3\<lparr>solver_calls := solver_calls ed @ [(s, us)]\<rparr>
         in case searchOptimalTrajectory c s us of
              Some err \<Rightarrow> (ed4, Some err)
            | None \<Rightarrow> (displayFoundTrajectory s ed4, None))"
    using try_reaches_solver[of c "findTrajectory_enter ed" s] assms
    by (simp add: findTrajectory_sequence_enter validation_error_enter)
  show "solver_calls (findTrajectory c ed) = solver_calls ed @ [(s, solver_settings s ed)]"
    by (cases "searchOptimalTrajectory c s (solver_settings s ed)")
       (simp_all add: findTrajectory_def t Let_def solver_settings_def)
  show "findTrajectory_thrown c ed = searchOptimalTrajectory c s (solver_settings s ed)"
    by (cases "searchOptimalTrajectory c s (solver_settings s ed)")
       (simp_all add: findTrajectory_thrown_def t Let_def solver_settings_def)
qed

lemma findTrajectory_validation_fails:
  assumes "findTrajectory_sequence c ed = Inr (Some s)" and "bodies s \<noteq> []"
    and "validation_error ed = Some err"
  shows "solver_calls (findTrajectory c ed) = solver_calls ed"
    and "findTrajectory_thrown c ed = Some err"
proof -
  have t: "findTrajectory_try c (findTrajectory_enter ed)
         = (altitude_ranges_updated s (findTrajectory_enter ed), Some err)"
    using try_validation_fails[of c "findTrajectory_enter ed" s err] assms
    by (simp add: findTrajectory_sequence_enter validation_error_enter)
  show "solver_calls (findTrajectory c ed) = solver_calls ed"
    by (simp add: findTrajectory_def t Let_def)
  show "findTrajectory_thrown c ed = Some err"
    by (simp add: findTrajectory_thrown_def t)
qed

text \<open>
  C8: in a call of \<^verbatim>\<open>findTrajectory\<close> that gets to the date range check (a
  sequence with at least one body, valid time selectors) with a valid duration limit, a
  window whose end date equals its start date is accepted: the solver is called once,
  with equal start and end dates, and the call throws only what the solver throws. The
  solver is left uncalled exactly when the end date is strictly less than the start date,
  and the error thrown then has the message demanding a greater end date.
\<close>

theorem findTrajectory_accepts_equal_dates:
  assumes "findTrajectory_sequence c ed = Inr (Some s)" and "bodies s \<noteq> []"
    and "time_valid (timeRangeStart ed)" and "time_valid (timeRangeEnd ed)"
    and "validate (maxDuration ed)"
  shows "(dateSeconds (timeRangeEnd ed) = dateSeconds (timeRangeStart ed) \<longrightarrow>
            solver_calls (findTrajectory c ed) = solver_calls ed @ [(s, solver_settings s ed)]
          \<and> startDate (solver_settings s ed) = dateSeconds (timeRangeStart ed)
          \<and> endDate (solver_settings s ed) = startDate (solver_settings s ed)
          \<and> findTrajectory_thrown c ed = searchOptimalTrajectory c s (solver_settings s ed))
       \<and> (solver_calls (findTrajectory c ed) = solver_calls ed
            \<longleftrightarrow> dateSeconds (timeRangeEnd ed) < dateSeconds (timeRangeStart ed))
       \<and> (dateSeconds (timeRangeEnd ed) < dateSeconds (timeRangeStart ed) \<longrightarrow>
            findTrajectory_thrown c ed
              = Some (Error ''Departure date range end must be greater than the start date.''))"
proof (cases "dateSeconds (timeRangeEnd ed) < dateSeconds (timeRangeStart ed)")
  case True
  have ve: "validation_error ed = Some date_error"
    by (rule validation_error_dates_valid[OF True assms(3,4)])
  show ?thesis
    using True findTrajectory_validation_fails[OF assms(1,2) ve]
    by (simp add: date_error_def)
next
  case False
  have ve: "validation_error ed = None"
    unfolding validation_error_None_iff using assms(3-5) False by blast
  show ?thesis
    using False findTrajectory_solver_called[OF assms(1,2) ve]
    by (simp add: solver_settings_dates)
qed

theorem findTrajectory_accepts_equal_dates_witness:
  "solver_calls (findTrajectory successful_run
      (example_editor\<lparr>timeRangeEnd := \<lparr>time_valid = True, dateSeconds = 0\<rparr>\<rparr>))
    = [(example_sequence,
        solver_settings example_sequence
          (example_editor\<lparr>timeRangeEnd := \<lparr>time_valid = True, dateSeconds = 0\<rparr>\<rparr>))]
   \<and> endDate (solver_settings example_sequence
          (example_editor\<lparr>timeRangeEnd := \<lparr>time_valid = True, dateSeconds = 0\<rparr>\<rparr>)) = 0
   \<and> findTrajectory_thrown successful_run
      (example_editor\<lparr>timeRangeEnd := \<lparr>time_valid = True, dateSeconds = 0\<rparr>\<rparr>) = None"
  using findTrajectory_accepts_equal_dates
    [of successful_run "example_editor\<lparr>timeRangeEnd := \<lparr>time_valid = True, dateSeconds = 0\<rparr>\<rparr>" example_sequence]
  by (simp add: ex_defs findTrajectory_sequence_def sequenceSelector_sequence_def validate_def)

section \<open>Calls of the solver\<close>


section \<open>Outcomes of the two calls\<close>

lemma generateSequences_catch_fields [simp]:
  "console_errors (generateSequences_catch err ed) = console_errors ed @ [err]"
  "sequenceSelector_items (generateSequences_catch err ed) = sequenceSelector_items ed"
  "sequenceSelector_enabled (generateSequences_catch err ed) = sequenceSelector_enabled ed"
  "generator_calls (generateSequences_catch err ed) = generator_calls ed"
  "sequence_paramsErr (generateSequences_catch err ed) =
     (if instanceof_Error err \<and> message err \<noteq> WORKER_CANCELLED then Some err
      else sequence_paramsErr ed)"
  by (simp_all add: generateSequences_catch_def Let_def)

lemma generateSequences_paths:
  obtains (assert) err where "assertSequenceInputs ed = Some err"
      "generateSequences_try c (generateSequences_enter ed) = (try_entry ed, Some err)"
  | (rejects) err where "assertSequenceInputs ed = None"
      "generateFlybySequences c (sequence_params ed) = Inl err"
      "generateSequences_try c (generateSequences_enter ed) =
         (try_entry ed\<lparr>generator_calls := generator_calls ed @ [sequence_params ed]\<rparr>, Some err)"
  | (resolves) seqs where "assertSequenceInputs ed = None"
      "generateFlybySequences c (sequence_params ed) = Inr seqs"
      "generateSequences_try c (generateSequences_enter ed) =
         (try_entry ed\<lparr>generator_calls := generator_calls ed @ [sequence_params ed],
            sequenceSelector_items := seqs, sequenceSelector_enabled := True\<rparr>, None)"
proof (cases "assertSequenceInputs ed")
  case (Some err)
  then show ?thesis using "assert" try_assert_fails by blast
next
  case None
  show ?thesis
  proof (cases "generateFlybySequences c (sequence_params ed)")
    case (Inl err)
    then show ?thesis using None rejects try_generator_rejects by blast
  next
    case (Inr seqs)
    then show ?thesis using None resolves try_generator_resolves by blast
  qed
qed



lemma generateSequences_when_thrown:
  assumes "generateSequences_thrown c ed = Some err"
  shows "generateSequences c ed =
     generateSequences_catch err (fst (generateSequences_try c (generateSequences_enter ed)))
       \<lparr>progressMsg_enabled := False, systemSelector_enabled := True\<rparr>"
proof (cases "generateSequences_try c (generateSequences_enter ed)")
  case (Pair st thr)
  with assms have "thr = Some err"
    by (simp add: generateSequences_thrown_def)
  with Pair show ?thesis
    by (simp add: generateSequences_def Let_def)
qed


lemma sentinels [simp]:
  "instanceof_Error (Error m)" "message (Error m) = m"
  by (simp_all add: instanceof_Error_def message_def)


lemma cancelled_generation_thrown:
  "generateSequences_thrown cancelled_run example_editor = Some (Error WORKER_CANCELLED)"
proof -
  have "assertSequenceInputs example_editor = None"
    by (simp add: ex_defs assertSequenceInputs_def assertValidity_def)
  moreover have "generateFlybySequences cancelled_run (sequence_params example_editor)
      = Inl (Error WORKER_CANCELLED)"
    by (simp add: cancelled_run_def)
  ultimately show ?thesis
    by (simp add: generateSequences_thrown_def try_generator_rejects)
qed

text \<open>
  C6: a call of \<^verbatim>\<open>generateSequences\<close> whose try block ends by a thrown value,
  the cancellation error among them, leaves the sequence selector empty and disabled;
  when the inputs passed \<^verbatim>\<open>assertSequenceInputs\<close>, the awaited generator call is
  the one that rejected with that value, so it resolved with no sequences at all.
\<close>

theorem cancelled_generation_delivers_nothing:
  assumes "generateSequences_thrown c ed = Some err"
  shows "sequenceSelector_items (generateSequences c ed) = []
       \<and> \<not> sequenceSelector_enabled (generateSequences c ed)
       \<and> (assertSequenceInputs ed = None \<longrightarrow>
            generateFlybySequences c (sequence_params ed) = Inl err)"
proof (rule generateSequences_paths[where ed = ed and c = c])
  fix e
  assume a: "assertSequenceInputs ed = Some e"
    and t: "generateSequences_try c (generateSequences_enter ed) = (try_entry ed, Some e)"
  show ?thesis
    using a by (simp add: generateSequences_when_thrown[OF assms] t)
next
  fix e
  assume g: "generateFlybySequences c (sequence_params ed) = Inl e"
    and t: "generateSequences_try c (generateSequences_enter ed) =
         (try_entry ed\<lparr>generator_calls := generator_calls ed @ [sequence_params ed]\<rparr>, Some e)"
  have "e = err" using assms t by (simp add: generateSequences_thrown_def)
  then show ?thesis
    using g by (simp add: generateSequences_when_thrown[OF assms] t)
next
  fix seqs
  assume "generateSequences_try c (generateSequences_enter ed) =
         (try_entry ed\<lparr>generator_calls := generator_calls ed @ [sequence_params ed],
            sequenceSelector_items := seqs, sequenceSelector_enabled := True\<rparr>, None)"
  then show ?thesis
    using assms by (simp add: generateSequences_thrown_def)
qed

theorem cancelled_generation_delivers_nothing_witness:
  "generateSequences_thrown cancelled_run example_editor = Some (Error WORKER_CANCELLED)
   \<and> sequenceSelector_items example_editor \<noteq> []
   \<and> sequenceSelector_items (generateSequences cancelled_run example_editor) = []
   \<and> \<not> sequenceSelector_enabled (generateSequences cancelled_run example_editor)"
  using cancelled_generation_delivers_nothing[OF cancelled_generation_thrown] cancelled_generation_thrown
  by (simp add: example_editor_def)

text \<open>
  C10: whatever the generator, the parser and the solver answer and whatever the state
  before, a call of \<^verbatim>\<open>generateSequences\<close> ends with the system selector enabled
  and the progress message hidden, a call of \<^verbatim>\<open>findTrajectory\<close> with the system
  selector enabled, and each click handler ends with its own button enabled again.
\<close>

theorem controls_restored:
  "systemSelector_enabled (generateSequences c ed)
   \<and> \<not> progressMsg_enabled (generateSequences c ed)
   \<and> systemSelector_enabled (findTrajectory c ed)
   \<and> seqGenBtn_enabled (seqGenBtn_click c ed)
   \<and> systemSelector_enabled (seqGenBtn_click c ed)
   \<and> \<not> progressMsg_enabled (seqGenBtn_click c ed)
   \<and> searchStartBtn_enabled (searchStartBtn_click c ed)
   \<and> systemSelector_enabled (searchStartBtn_click c ed)"
  by (simp add: generateSequences_def findTrajectory_def seqGenBtn_click_def
      searchStartBtn_click_def Let_def)

theorem controls_restored_witness:
  "generateSequences_thrown cancelled_run example_editor = Some (Error WORKER_CANCELLED)
   \<and> systemSelector_enabled (generateSequences cancelled_run example_editor)
   \<and> seqGenBtn_enabled (seqGenBtn_click cancelled_run example_editor)
   \<and> searchStartBtn_enabled (searchStartBtn_click cancelled_run example_editor)"
  using controls_restored[of cancelled_run example_editor] cancelled_generation_thrown
  by simp

section \<open>Properties of the generator\<close>

lemma consecutive_snoc:
  "xs \<noteq> [] \<Longrightarrow> consecutive (xs @ [b]) = consecutive xs @ [(last xs, b)]"
proof (induction xs)
  case Nil
  then show ?case by simp
next
  case (Cons x xs)
  show ?case
  proof (cases xs)
    case Nil
    then show ?thesis by (simp add: consecutive_def)
  next
    case (Cons y ys)
    with Cons.IH show ?thesis by (simp add: consecutive_def)
  qed
qed

lemma legs_snoc: "xs \<noteq> [] \<Longrightarrow> legs (xs @ [b]) = legs xs @ [(last xs, b)]"
  by (simp add: legs_def consecutive_snoc)

lemma resonant_assists_snoc:
  "xs \<noteq> [] \<Longrightarrow> resonant_assists (xs @ [b])
     = resonant_assists xs + (if is_resonant (last xs, b) then 1 else 0)"
  by (simp add: resonant_assists_def legs_snoc)

lemma back_legs_snoc:
  "xs \<noteq> [] \<Longrightarrow> back_legs sys (xs @ [b])
     = back_legs sys xs + (if is_back_leg sys (last xs, b) then 1 else 0)"
  by (simp add: back_legs_def legs_snoc)

lemma back_leg_positions_snoc:
  assumes "xs \<noteq> []"
  shows "back_leg_positions sys (xs @ [b])
     = back_leg_positions sys xs @ (if is_back_leg sys (last xs, b) then [length (legs xs)] else [])"
proof -
  have "filter (\<lambda>i. is_back_leg sys ((legs xs @ [(last xs, b)]) ! i)) [0..<length (legs xs)]
      = filter (\<lambda>i. is_back_leg sys (legs xs ! i)) [0..<length (legs xs)]"
    by (rule filter_cong) (simp_all add: nth_append)
  then show ?thesis
    using assms by (simp add: back_leg_positions_def legs_snoc)
qed

lemma back_leg_positions_bound:
  "i \<in> set (back_leg_positions sys xs) \<Longrightarrow> i < length (legs xs)"
  by (simp add: back_leg_positions_def)

lemma back_leg_spacings_snoc:
  assumes "xs \<noteq> []"
  shows "back_leg_spacings sys (xs @ [b]) =
     back_leg_spacings sys xs @
       (if is_back_leg sys (last xs, b) \<and> back_leg_positions sys xs \<noteq> []
        then [length (legs xs) - last (back_leg_positions sys xs)] else [])"
proof (cases "is_back_leg sys (last xs, b)")
  case False
  then show ?thesis
    using assms by (simp add: back_leg_spacings_def back_leg_positions_snoc)
next
  case True
  show ?thesis
  proof (cases "back_leg_positions sys xs = []")
    case True
    with \<open>is_back_leg sys (last xs, b)\<close> show ?thesis
      using assms by (simp add: back_leg_spacings_def back_leg_positions_snoc consecutive_def)
  next
    case False
    with True show ?thesis
      using assms by (simp add: back_leg_spacings_def back_leg_positions_snoc consecutive_snoc)
  qed
qed

lemma root_inv: "node_inv sys (root p)"
  by (simp add: node_inv_def root_def resonant_assists_def back_legs_def back_leg_positions_def
      legs_def consecutive_def)

lemma root_within:
  "0 \<le> maxSwingBys p \<Longrightarrow> 0 \<le> maxResonant p \<Longrightarrow> 0 \<le> maxBackLegs p \<Longrightarrow>
   node_within_bounds sys p (path (root p))"
  by (simp add: node_within_bounds_def root_def resonant_assists_def back_legs_def
      back_leg_spacings_def back_leg_positions_def legs_def consecutive_def)

lemma path_add_leg: "path (add_leg sys n b) = path n @ [b]"
  by (simp add: add_leg_def Let_def)

lemma add_leg_inv:
  assumes "node_inv sys n"
  shows "node_inv sys (add_leg sys n b)"
proof -
  from assms have ne: "path n \<noteq> []" by (simp add: path_add_leg node_inv_def)
  have since: "sinceBack (add_leg sys n b) =
          (if back_leg_positions sys (path n @ [b]) = [] then None
           else Some (length (legs (path n @ [b])) - 1 - last (back_leg_positions sys (path n @ [b]))))"
  proof (cases "is_back_leg sys (last (path n), b)")
    case True
    then show ?thesis
      by (simp add: path_add_leg add_leg_def Let_def back_leg_positions_snoc[OF ne] legs_snoc[OF ne])
  next
    case False
    show ?thesis
    proof (cases "back_leg_positions sys (path n) = []")
      case True
      with False assms show ?thesis
        by (simp add: path_add_leg add_leg_def Let_def back_leg_positions_snoc[OF ne] node_inv_def)
    next
      case nonempty: False
      then have "last (back_leg_positions sys (path n)) \<in> set (back_leg_positions sys (path n))"
        by (simp add: path_add_leg)
      then have "last (back_leg_positions sys (path n)) < length (legs (path n))"
        by (rule back_leg_positions_bound)
      with False nonempty assms show ?thesis
        by (simp add: path_add_leg add_leg_def Let_def back_leg_positions_snoc[OF ne] legs_snoc[OF ne] node_inv_def)
    qed
  qed
  show ?thesis
    using assms since
    by (simp add: path_add_leg node_inv_def resonant_assists_snoc[OF ne] back_legs_snoc[OF ne])
       (simp add: path_add_leg add_leg_def Let_def)
qed


lemma admissible_snoc:
  assumes inv: "node_inv sys n" and adm: "admissible sys p n b"
    and spacings: "list_all (\<lambda>spacing. int spacing \<le> maxBackSpacing p) (back_leg_spacings sys (path n))"
  shows "int (resonant_assists (path n @ [b])) \<le> maxResonant p"
    and "int (back_legs sys (path n @ [b])) \<le> maxBackLegs p"
    and "list_all (\<lambda>spacing. int spacing \<le> maxBackSpacing p) (back_leg_spacings sys (path n @ [b]))"
proof -
  from inv have ne: "path n \<noteq> []" by (simp add: path_add_leg node_inv_def)
  note inv' = add_leg_inv[OF inv, of b]
  from adm have "int (resonant (add_leg sys n b)) \<le> maxResonant p"
    and "int (backLegs (add_leg sys n b)) \<le> maxBackLegs p"
    by (simp_all add: path_add_leg admissible_def Let_def)
  with inv' show "int (resonant_assists (path n @ [b])) \<le> maxResonant p"
    and "int (back_legs sys (path n @ [b])) \<le> maxBackLegs p"
    by (simp_all add: path_add_leg node_inv_def)
  show "list_all (\<lambda>spacing. int spacing \<le> maxBackSpacing p) (back_leg_spacings sys (path n @ [b]))"
  proof (cases "is_back_leg sys (last (path n), b) \<and> back_leg_positions sys (path n) \<noteq> []")
    case False
    then show ?thesis
      using spacings by (auto simp: path_add_leg back_leg_spacings_snoc[OF ne])
  next
    case True
    then have "last (back_leg_positions sys (path n)) \<in> set (back_leg_positions sys (path n))"
      by (simp add: path_add_leg)
    then have lt: "last (back_leg_positions sys (path n)) < length (legs (path n))"
      by (rule back_leg_positions_bound)
    from True inv have "sinceBack n
        = Some (length (legs (path n)) - 1 - last (back_leg_positions sys (path n)))"
      by (simp add: path_add_leg node_inv_def)
    with True adm have "int (Suc (length (legs (path n)) - 1 - last (back_leg_positions sys (path n))))
        \<le> maxBackSpacing p"
      by (simp add: path_add_leg admissible_def Let_def)
    moreover have "Suc (length (legs (path n)) - 1 - last (back_leg_positions sys (path n)))
        = length (legs (path n)) - last (back_leg_positions sys (path n))"
      using lt by arith
    ultimately have "int (length (legs (path n)) - last (back_leg_positions sys (path n)))
        \<le> maxBackSpacing p"
      by (simp add: path_add_leg)
    with True spacings show ?thesis
      by (simp add: path_add_leg back_leg_spacings_snoc[OF ne])
  qed
qed

lemma branch_ok:
  assumes inv: "node_inv sys n" and within: "node_within_bounds sys p (path n)"
    and origin: "hd (path n) = departureId p"
    and continue: "\<And>v. admissible sys p n b \<Longrightarrow> b \<noteq> destinationId p \<Longrightarrow>
       v \<in> set (continue (add_leg sys n b)) \<Longrightarrow> visit_ok sys p v"
    and v: "v \<in> set (branch sys p continue n b)"
  shows "visit_ok sys p v"
proof -
  from inv have ne: "path n \<noteq> []" by (simp add: path_add_leg node_inv_def)
  from v have adm: "admissible sys p n b"
    by (simp add: path_add_leg branch_def split: if_splits)
  from within have spacings:
    "list_all (\<lambda>spacing. int spacing \<le> maxBackSpacing p) (back_leg_spacings sys (path n))"
    by (simp add: path_add_leg node_within_bounds_def)
  note caps = admissible_snoc[OF inv adm spacings]
  show ?thesis
  proof (cases "b = destinationId p")
    case True
    with v adm have "v = Complete (path n @ [b])"
      by (simp add: path_add_leg branch_def)
    moreover have "assists (path n @ [b]) \<le> maxSwingBys p"
      using within by (simp add: path_add_leg assists_def node_within_bounds_def)
    ultimately show ?thesis
      using caps True ne origin by (simp add: path_add_leg visit_ok_def within_bounds_def Suc_le_eq)
  next
    case False
    with v adm have "v \<in> set (continue (add_leg sys n b))"
      by (simp add: path_add_leg branch_def)
    then show ?thesis by (rule continue[OF adm False])
  qed
qed

lemma expand_ok:
  assumes "node_inv sys n" and "node_within_bounds sys p (path n)"
    and "hd (path n) = departureId p"
    and "int (length (path n)) - 1 + int budget \<le> maxSwingBys p"
    and "v \<in> set (expand sys p budget n)"
  shows "visit_ok sys p v"
  using assms
proof (induction budget arbitrary: n v)
  case 0
  from 0(5) consider "v = Expanded (path n)"
    | b where "v \<in> set (branch sys p (\<lambda>n'. []) n b)"
    by (auto simp: path_add_leg)
  then show ?case
  proof cases
    case 1
    with 0(2,3) show ?thesis by (simp add: path_add_leg visit_ok_def)
  next
    case 2
    then show ?thesis
      by (rule branch_ok[OF 0(1,2,3), rotated]) simp
  qed
next
  case (Suc budget)
  from Suc.prems(5) consider "v = Expanded (path n)"
    | b where "v \<in> set (branch sys p (expand sys p budget) n b)"
    by (auto simp: path_add_leg)
  then show ?case
  proof cases
    case 1
    with Suc.prems(2,3) show ?thesis by (simp add: path_add_leg visit_ok_def)
  next
    case 2
    from Suc.prems(1) have ne: "path n \<noteq> []" by (simp add: path_add_leg node_inv_def)
    show ?thesis
    proof (rule branch_ok[OF Suc.prems(1,2,3) _ 2])
      fix w
      assume adm: "admissible sys p n b" and "b \<noteq> destinationId p"
        and w: "w \<in> set (expand sys p budget (add_leg sys n b))"
      from Suc.prems(2) have spacings:
        "list_all (\<lambda>spacing. int spacing \<le> maxBackSpacing p) (back_leg_spacings sys (path n))"
        by (simp add: path_add_leg node_within_bounds_def)
      have within': "node_within_bounds sys p (path (add_leg sys n b))"
        using admissible_snoc[OF Suc.prems(1) adm spacings] Suc.prems(4)
        by (simp add: path_add_leg node_within_bounds_def)
      show "visit_ok sys p w"
        using Suc.IH[OF add_leg_inv[OF Suc.prems(1)] within' _ _ w] Suc.prems(3,4) ne
        by (simp add: path_add_leg)
    qed
  qed
qed

lemma search_ok:
  assumes "v \<in> set (search sys p)"
  shows "visit_ok sys p v"
proof -
  from assms have valid: "valid_bounds p" and v: "v \<in> set (expand sys p (nat (maxSwingBys p)) (root p))"
    by (simp_all add: search_def split: if_splits)
  show ?thesis
  proof (rule expand_ok[OF root_inv _ _ _ v])
    show "node_within_bounds sys p (path (root p))"
      using valid by (simp add: root_within valid_bounds_def)
    show "hd (path (root p)) = departureId p"
      by (simp add: root_def)
    show "int (length (path (root p))) - 1 + int (nat (maxSwingBys p)) \<le> maxSwingBys p"
      using valid by (simp add: root_def valid_bounds_def)
  qed
qed

lemma completed_iff: "s \<in> set (completed vs) \<longleftrightarrow> Complete s \<in> set vs"
  by (auto simp: completed_def split: visit.splits)

lemma expanded_iff: "s \<in> set (expanded vs) \<longleftrightarrow> Expanded s \<in> set vs"
  by (auto simp: expanded_def split: visit.splits)

lemma generate_ok:
  assumes "s \<in> set (generate sys p)"
  shows "within_bounds sys p s" "hd s = departureId p" "last s = destinationId p" "2 \<le> length s"
  using search_ok[of "Complete s" sys p] assms
  by (simp_all add: generate_def completed_iff visit_ok_def)

lemma expanded_ok:
  assumes "s \<in> set (expanded (search sys p))"
  shows "node_within_bounds sys p s"
  using search_ok[of "Expanded s" sys p] assms
  by (simp add: expanded_iff visit_ok_def)


text \<open>
  The editor hands the four inputs to the generator under their own names, so the
  sequences it fills the selector with are within the bounds the user entered.
\<close>

lemma generateSequences_items_within_bounds:
  assumes "generateFlybySequences c = spec_generator sys"
    and "s \<in> set (sequenceSelector_items (generateSequences c ed))"
  shows "within_bounds sys (sequence_params ed) (ids s)"
    and "maxSwingBys (sequence_params ed) = input_value (maxSwingBysInput ed)"
    and "maxResonant (sequence_params ed) = input_value (maxResonantInput ed)"
    and "maxBackLegs (sequence_params ed) = input_value (maxBackLegsInput ed)"
    and "maxBackSpacing (sequence_params ed) = input_value (maxBackSpacingInput ed)"
proof -
  show "within_bounds sys (sequence_params ed) (ids s)"
  proof (rule generateSequences_paths[where ed = ed and c = c])
    fix err
    assume "generateSequences_try c (generateSequences_enter ed) = (try_entry ed, Some err)"
    with assms(2) show ?thesis
      by (simp add: generateSequences_def Let_def)
  next
    fix err
    assume "generateFlybySequences c (sequence_params ed) = Inl err"
    with assms(1) show ?thesis
      by (simp add: spec_generator_def)
  next
    fix seqs
    assume "generateFlybySequences c (sequence_params ed) = Inr seqs"
      and "generateSequences_try c (generateSequences_enter ed) =
         (try_entry ed\<lparr>generator_calls := generator_calls ed @ [sequence_params ed],
            sequenceSelector_items := seqs, sequenceSelector_enabled := True\<rparr>, None)"
    with assms have "s \<in> mk_sequence sys ` set (generate sys (sequence_params ed))"
      by (auto simp: generateSequences_def Let_def spec_generator_def)
    then show ?thesis
      by (auto simp: mk_sequence_def generate_ok(1))
  qed
qed (simp_all add: sequence_params_def)

text \<open>
  C1: every sequence the generator returns for given search parameters has at most
  \<open>maxSwingBys\<close> gravity assists, at most \<open>maxResonant\<close> resonant assists, at most
  \<open>maxBackLegs\<close> back legs and at most \<open>maxBackSpacing\<close> legs from any back leg to
  the next; it starts at the departure body and ends at the destination. Every node the
  expansion recurses into is itself within the four bounds, its bodies after the origin
  counted as assists: a branch that exceeds a bound is never expanded. With this
  generator behind it, \<^verbatim>\<open>generateSequences\<close> fills the selector only with sequences
  within the bounds of the four inputs.
\<close>

theorem generated_sequences_within_bounds:
  "(\<forall>s \<in> set (generate sys p).
       assists s \<le> maxSwingBys p
     \<and> int (resonant_assists s) \<le> maxResonant p
     \<and> int (back_legs sys s) \<le> maxBackLegs p
     \<and> (\<forall>spacing \<in> set (back_leg_spacings sys s). int spacing \<le> maxBackSpacing p)
     \<and> hd s = departureId p \<and> last s = destinationId p \<and> 2 \<le> length s)
 \<and> (\<forall>s \<in> set (expanded (search sys p)).
       int (length s) - 1 \<le> maxSwingBys p
     \<and> int (resonant_assists s) \<le> maxResonant p
     \<and> int (back_legs sys s) \<le> maxBackLegs p
     \<and> (\<forall>spacing \<in> set (back_leg_spacings sys s). int spacing \<le> maxBackSpacing p))
 \<and> (generateFlybySequences c = spec_generator sys \<longrightarrow>
      (\<forall>s \<in> set (sequenceSelector_items (generateSequences c ed)).
         assists (ids s) \<le> input_value (maxSwingBysInput ed)
       \<and> int (resonant_assists (ids s)) \<le> input_value (maxResonantInput ed)
       \<and> int (back_legs sys (ids s)) \<le> input_value (maxBackLegsInput ed)
       \<and> (\<forall>spacing \<in> set (back_leg_spacings sys (ids s)).
             int spacing \<le> input_value (maxBackSpacingInput ed))))"
proof (intro conjI ballI impI)
  fix s spacing
  assume s: "s \<in> set (generate sys p)"
  note ok = generate_ok[OF s]
  show "assists s \<le> maxSwingBys p" "int (resonant_assists s) \<le> maxResonant p"
    "int (back_legs sys s) \<le> maxBackLegs p"
    using ok(1) by (simp_all add: within_bounds_def)
  show "hd s = departureId p" "last s = destinationId p" "2 \<le> length s"
    by (rule ok)+
  assume "spacing \<in> set (back_leg_spacings sys s)"
  with ok(1) show "int spacing \<le> maxBackSpacing p"
    by (simp add: within_bounds_def list_all_iff)
next
  fix s spacing
  assume s: "s \<in> set (expanded (search sys p))"
  note ok = expanded_ok[OF s]
  show "int (length s) - 1 \<le> maxSwingBys p" "int (resonant_assists s) \<le> maxResonant p"
    "int (back_legs sys s) \<le> maxBackLegs p"
    using ok by (simp_all add: node_within_bounds_def)
  assume "spacing \<in> set (back_leg_spacings sys s)"
  with ok show "int spacing \<le> maxBackSpacing p"
    by (simp add: node_within_bounds_def list_all_iff)
next
  fix s spacing
  assume gen: "generateFlybySequences c = spec_generator sys"
    and s: "s \<in> set (sequenceSelector_items (generateSequences c ed))"
  note ok = generateSequences_items_within_bounds[OF gen s]
  show "assists (ids s) \<le> input_value (maxSwingBysInput ed)"
    "int (resonant_assists (ids s)) \<le> input_value (maxResonantInput ed)"
    "int (back_legs sys (ids s)) \<le> input_value (maxBackLegsInput ed)"
    using ok by (simp_all add: within_bounds_def)
  assume "spacing \<in> set (back_leg_spacings sys (ids s))"
  with ok show "int spacing \<le> input_value (maxBackSpacingInput ed)"
    by (simp add: within_bounds_def list_all_iff)
qed

theorem generated_sequences_within_bounds_witness:
  "[3, 2, 1, 4] \<in> set (generate example_system example_params)
   \<and> assists [3, 2, 1, 4] \<le> maxSwingBys example_params
   \<and> int (resonant_assists [3, 2, 1, 4]) \<le> maxResonant example_params
   \<and> int (back_legs example_system [3, 2, 1, 4]) \<le> maxBackLegs example_params
   \<and> back_leg_spacings example_system [3, 2, 1, 4] = [1]
   \<and> 1 \<le> maxBackSpacing example_params
   \<and> [3, 2] \<in> set (expanded (search example_system example_params))
   \<and> int (back_legs example_system [3, 2]) \<le> maxBackLegs example_params
   \<and> generateFlybySequences generating_run = spec_generator example_system
   \<and> mk_sequence example_system [3, 2, 4]
        \<in> set (sequenceSelector_items (generateSequences generating_run example_editor))
   \<and> int (back_legs example_system (ids (mk_sequence example_system [3, 2, 4])))
        \<le> input_value (maxBackLegsInput example_editor)"
proof -
  have generated: "[3, 2, 1, 4] \<in> set (generate example_system example_params)"
    by code_simp
  have spacings: "back_leg_spacings example_system [3, 2, 1, 4] = [1]"
    by code_simp
  have node: "[3, 2] \<in> set (expanded (search example_system example_params))"
    by code_simp
  have gen: "generateFlybySequences generating_run = spec_generator example_system"
    by (simp add: generating_run_def)
  have item: "mk_sequence example_system [3, 2, 4]
        \<in> set (sequenceSelector_items (generateSequences generating_run example_editor))"
    by code_simp
  show ?thesis
    using generated_sequences_within_bounds
      [where sys = example_system and p = example_params and c = generating_run
         and ed = example_editor]
      generated spacings node gen item
    by auto
qed

section \<open>Properties of the solver\<close>

lemma best_of_le: "snd (best_of f population best) \<le> snd best"
  unfolding best_of_def
proof (induction population arbitrary: best)
  case Nil
  then show ?case by simp
next
  case (Cons c cs)
  have "snd (fold (\<lambda>c b. if f c < snd b then (c, f c) else b) cs
          (if f c < snd best then (c, f c) else best))
        \<le> snd (if f c < snd best then (c, f c) else best)"
    by (rule Cons.IH)
  also have "\<dots> \<le> snd best" by simp
  finally show ?case by simp
qed

lemma generations_snapshots:
  assumes "generations S remaining i population best history = (snapshots, outcome)"
  shows "sorted_wrt (\<lambda>earlier later. bestDeltaV later \<le> bestDeltaV earlier) snapshots
       \<and> (\<forall>s \<in> set snapshots. bestDeltaV s \<le> snd best)"
  using assms
proof (induction remaining arbitrary: i population best history snapshots outcome)
  case 0
  then show ?case by simp
next
  case (Suc remaining)
  let ?population = "evolve S i population"
  let ?best = "best_of (objective S) ?population best"
  let ?snapshot = "\<lparr>evaluated = Suc i, total = iterations S, bestDeltaV = snd ?best\<rparr>"
  have le: "snd ?best \<le> snd best" by (rule best_of_le)
  show ?case
  proof (cases "cancel_seen S i")
    case True
    with Suc.prems show ?thesis by simp
  next
    case False
    show ?thesis
    proof (cases "converged S (snd ?best # history)")
      case True
      with False Suc.prems le show ?thesis by (auto simp: Let_def)
    next
      case notconv: False
      obtain rest out where rest:
        "generations S remaining (Suc i) ?population ?best (snd ?best # history) = (rest, out)"
        by (cases "generations S remaining (Suc i) ?population ?best (snd ?best # history)")
      from Suc.IH[OF rest] have
        sorted: "sorted_wrt (\<lambda>earlier later. bestDeltaV later \<le> bestDeltaV earlier) rest"
        and below: "\<forall>s \<in> set rest. bestDeltaV s \<le> snd ?best"
        by simp_all
      from Suc.prems False notconv rest have "snapshots = ?snapshot # rest"
        by (simp add: Let_def)
      with sorted below le show ?thesis by auto
    qed
  qed
qed


text \<open>
  C2: in every run of the solver, each snapshot reports a best delta-v that is at most
  the one of the snapshot before it.
\<close>

theorem best_delta_v_non_increasing:
  assumes "Suc i < length (fst (run_search S population))"
  shows "bestDeltaV (fst (run_search S population) ! Suc i)
       \<le> bestDeltaV (fst (run_search S population) ! i)"
proof (cases population)
  case Nil
  with assms show ?thesis by (simp add: run_search_def)
next
  case (Cons c cs)
  let ?best = "best_of (objective S) cs (c, objective S c)"
  obtain snapshots outcome where run:
    "generations S (iterations S) 0 population ?best [snd ?best] = (snapshots, outcome)"
    by (cases "generations S (iterations S) 0 population ?best [snd ?best]")
  with Cons have eq: "fst (run_search S population) = snapshots"
    by (simp add: run_search_def Let_def)
  from generations_snapshots[OF run]
  have "sorted_wrt (\<lambda>earlier later. bestDeltaV later \<le> bestDeltaV earlier) snapshots"
    by simp
  then show ?thesis
    using assms unfolding eq by (simp add: sorted_wrt_iff_nth_less)
qed

theorem best_delta_v_non_increasing_witness:
  "map bestDeltaV (fst (run_search example_solver [[10], [7]])) = [16, 1, 1, 1]
   \<and> bestDeltaV (fst (run_search example_solver [[10], [7]]) ! 1)
       \<le> bestDeltaV (fst (run_search example_solver [[10], [7]]) ! 0)"
proof -
  have run: "map bestDeltaV (fst (run_search example_solver [[10], [7]])) = [16, 1, 1, 1]"
    by code_simp
  from arg_cong[OF run, of length]
  have "Suc 0 < length (fst (run_search example_solver [[10], [7]]))"
    by simp
  from best_delta_v_non_increasing[OF this] run show ?thesis
    by simp
qed

section \<open>Properties of the canonical string\<close>

lemma digit_value_digit_char: "d < 10 \<Longrightarrow> digit_value (digit_char d) = Some d"
  by (simp add: digit_value_def digit_char_def Let_def)

lemma digit_value_separator: "digit_value CHR ''-'' = None"
  by (simp add: digit_value_def Let_def)

lemma decimal_small: "n < 10 \<Longrightarrow> decimal n = [digit_char n]"
  by (subst decimal.simps) simp

lemma decimal_large: "\<not> n < 10 \<Longrightarrow> decimal n = decimal (n div 10) @ [digit_char (n mod 10)]"
  by (subst decimal.simps) simp

lemma decimal_digits: "c \<in> set (decimal n) \<Longrightarrow> digit_value c \<noteq> None"
proof (induction n rule: decimal.induct)
  case (1 n)
  show ?case
  proof (cases "n < 10")
    case True
    with "1.prems" show ?thesis
      by (simp add: decimal_small digit_value_digit_char)
  next
    case False
    with "1.prems" have "c \<in> set (decimal (n div 10)) \<or> c = digit_char (n mod 10)"
      by (auto simp: decimal_large)
    then show ?thesis
      using "1.IH"[OF False] by (auto simp: digit_value_digit_char)
  qed
qed

lemma decimal_no_separator: "CHR ''-'' \<notin> set (decimal n)"
  using decimal_digits[of "CHR ''-''" n] by (auto simp: digit_value_separator)

lemma decimal_nonempty: "decimal n \<noteq> []"
  by (cases "n < 10") (simp_all add: decimal_small decimal_large)

lemma fold_decimal: "fold read_digit (decimal n) (Some 0) = Some n"
proof (induction n rule: decimal.induct)
  case (1 n)
  show ?case
  proof (cases "n < 10")
    case True
    then show ?thesis
      by (simp add: decimal_small read_digit_def digit_value_digit_char)
  next
    case False
    have "fold read_digit (decimal n) (Some 0)
        = read_digit (digit_char (n mod 10)) (fold read_digit (decimal (n div 10)) (Some 0))"
      using False by (simp add: decimal_large)
    also have "\<dots> = read_digit (digit_char (n mod 10)) (Some (n div 10))"
      using "1.IH"[OF False] by simp
    also have "\<dots> = Some n"
      by (simp add: read_digit_def digit_value_digit_char)
    finally show ?thesis .
  qed
qed

lemma parse_decimal_decimal: "parse_decimal (decimal n) = Some n"
  using fold_decimal[of n] decimal_nonempty[of n]
  by (simp add: parse_decimal_def)

lemma split_no_separator: "CHR ''-'' \<notin> set part \<Longrightarrow> split part = [part]"
  by (induction part) auto

lemma split_append_separator:
  "CHR ''-'' \<notin> set part \<Longrightarrow> split (part @ CHR ''-'' # rest) = part # split rest"
  by (induction part) auto

lemma split_join:
  assumes "parts \<noteq> []" and "\<forall>part \<in> set parts. CHR ''-'' \<notin> set part"
  shows "split (join parts) = parts"
  using assms
proof (induction parts rule: join.induct)
  case 1
  then show ?case by simp
next
  case (2 part)
  then show ?case by (simp add: split_no_separator)
next
  case (3 part next_part parts)
  then show ?case by (simp add: split_append_separator)
qed

lemma those_map_Some: "those (map Some xs) = Some xs"
  by (induction xs) simp_all

lemma those_parse_decimal: "those (map parse_decimal (map decimal ns)) = Some ns"
  by (induction ns) (simp_all add: parse_decimal_decimal)


lemma join_nonempty: "parts \<noteq> [] \<Longrightarrow> hd parts \<noteq> [] \<Longrightarrow> join parts \<noteq> []"
  by (induction parts rule: join.induct) simp_all

lemma seqString_nonempty: "ids s \<noteq> [] \<Longrightarrow> seqString s \<noteq> []"
  unfolding seqString_def
  by (rule join_nonempty) (simp_all add: hd_map decimal_nonempty)

lemma fromString_seqString:
  assumes "valid_sequence sys s"
  shows "FlybySequence_fromString sys (seqString s) = Inr s"
proof -
  from assms have nonempty: "ids s \<noteq> []"
    and found: "map (bodyFromId sys) (ids s) = map Some (bodies s)"
    by (simp_all add: valid_sequence_def)
  have "split (seqString s) = map decimal (ids s)"
    unfolding seqString_def
    by (rule split_join) (use nonempty in \<open>auto simp: decimal_no_separator\<close>)
  then have parsed: "those (map parse_decimal (split (seqString s))) = Some (ids s)"
    using those_parse_decimal[of "ids s"] by (simp del: map_map)
  have looked_up: "those (map (bodyFromId sys) (ids s)) = Some (bodies s)"
    by (simp add: found those_map_Some)
  show ?thesis
    by (simp add: FlybySequence_fromString_def parsed looked_up)
qed

text \<open>
  C7: for a valid sequence of a system, parsing its canonical string against that system
  gives the sequence back: the same identities in the same order, hence the same origin,
  destination and intermediate bodies. Typed into the custom sequence field of the
  editor, the string makes \<^verbatim>\<open>findTrajectory\<close> search that sequence.
\<close>

theorem sequence_string_round_trip:
  assumes "valid_sequence sys s"
  shows "FlybySequence_fromString sys (seqString s) = Inr s
       \<and> (customSequence_value ed = seqString s \<and> fromString c = FlybySequence_fromString sys
            \<longrightarrow> findTrajectory_sequence c ed = Inr (Some s))"
proof -
  from assms have "ids s \<noteq> []"
    by (simp add: valid_sequence_def)
  then have "seqString s \<noteq> []"
    by (rule seqString_nonempty)
  then show ?thesis
    using fromString_seqString[OF assms]
    by (simp add: findTrajectory_sequence_def)
qed

theorem sequence_string_round_trip_witness:
  "valid_sequence example_system example_sequence
   \<and> seqString example_sequence = ''3-4''
   \<and> FlybySequence_fromString example_system ''3-4'' = Inr example_sequence"
proof -
  have valid: "valid_sequence example_system example_sequence"
    by code_simp
  have str: "seqString example_sequence = ''3-4''"
    by code_simp
  from sequence_string_round_trip[OF valid] valid str show ?thesis
    by simp
qed

section \<open>Properties of cancellation\<close>










end
